theory Spec2Isabelle
  imports Complex_Main "HOL-Library.Word"
begin

unbundle bit_operations_syntax

section \<open>The interactive map widget (client/src: the vacuum-map element)\<close>

text \<open>
  JavaScript numbers are modelled as real numbers: the widget's arithmetic (products,
  quotients, \<open>Math.floor\<close>, \<open>Math.min\<close>, \<open>Math.max\<close>) is read in exact arithmetic,
  without the rounding, infinities and NaN of IEEE doubles. Two places go further: the
  initial scaling factor of \<open>_initCanvas\<close>, where a division by zero is modelled as the
  code computes it, and the viewport transforms of the raw-map renderer, where every
  operation is rounded to a double. A point \<open>{x, y}\<close> is a pair.
\<close>

type_synonym point = "real \<times> real"

subsection \<open>Coordinate helpers\<close>

text \<open>
  \<open>relativeCoordinates({x, y}, referenceElement)\<close>: the second argument of the model is
  \<open>(rect.left, rect.top)\<close> of the element's bounding client rectangle.
\<close>

definition relativeCoordinates :: "point \<Rightarrow> real \<times> real \<Rightarrow> point" where
  "relativeCoordinates p rect = (fst p - fst rect, snd p - snd rect)"

text \<open>\<open>convertToRealCoords\<close>: map space to millimeters; \<open>Math.floor\<close> yields an integer.\<close>

definition convertToRealCoords :: "point \<Rightarrow> int \<times> int" where
  "convertToRealCoords coordinatesInMapSpace =
     (\<lfloor>fst coordinatesInMapSpace * 50\<rfloor>, \<lfloor>snd coordinatesInMapSpace * 50\<rfloor>)"

subsection \<open>Locations\<close>

text \<open>
  Modelled from the spec: the classes \<open>GotoPoint\<close> and \<open>Zone\<close> of \<open>locations.js\<close>,
  which is not among the sources. A location is a goto point \<open>(x, y)\<close> or a zone
  \<open>(x1, y1, x2, y2)\<close> and carries the flag \<open>active\<close>. The widget constructs them with
  \<open>new GotoPoint(x, y)\<close> and \<open>new Zone(x1, y1, x2, y2)\<close>, reads these fields in
  \<open>getLocations\<close>, tests the class with \<open>instanceof\<close>, and writes \<open>active\<close>.
\<close>

datatype location =
    GotoPoint real real bool
  | Zone real real real real bool

fun isGotoPoint :: "location \<Rightarrow> bool" where
  "isGotoPoint (GotoPoint _ _ _) = True"
| "isGotoPoint (Zone _ _ _ _ _) = False"

fun isZone :: "location \<Rightarrow> bool" where
  "isZone (GotoPoint _ _ _) = False"
| "isZone (Zone _ _ _ _ _) = True"

fun setActive :: "bool \<Rightarrow> location \<Rightarrow> location" where
  "setActive v (GotoPoint gx gy _) = GotoPoint gx gy v"
| "setActive v (Zone zx1 zy1 zx2 zy2 _) = Zone zx1 zy1 zx2 zy2 v"

subsection \<open>\<open>getLocations\<close>\<close>

fun prepareGotoCoordinatesForApi :: "location \<Rightarrow> int \<times> int" where
  "prepareGotoCoordinatesForApi (GotoPoint gx gy _) = convertToRealCoords (gx, gy)"
| "prepareGotoCoordinatesForApi (Zone zx1 zy1 zx2 zy2 _) = convertToRealCoords (zx1, zy1)"

text \<open>
  The second equation of \<open>prepareGotoCoordinatesForApi\<close> and the first of
  \<open>prepareZoneCoordinatesForApi\<close> are never used: \<open>getLocations\<close> filters by class first.
\<close>

fun prepareZoneCoordinatesForApi :: "location \<Rightarrow> int list" where
  "prepareZoneCoordinatesForApi (Zone zx1 zy1 zx2 zy2 _) =
     (let p1Real = convertToRealCoords (zx1, zy1);
          p2Real = convertToRealCoords (zx2, zy2)
      in [min (fst p1Real) (fst p2Real),
          min (snd p1Real) (snd p2Real),
          max (fst p1Real) (fst p2Real),
          max (snd p1Real) (snd p2Real)])"
| "prepareZoneCoordinatesForApi (GotoPoint gx gy _) = []"

record apiLocations =
  zones :: "int list list"
  gotoPoints :: "(int \<times> int) list"

definition getLocations :: "location list \<Rightarrow> apiLocations" where
  "getLocations locs =
     \<lparr> zones = map prepareZoneCoordinatesForApi (filter isZone locs),
       gotoPoints = map prepareGotoCoordinatesForApi (filter isGotoPoint locs) \<rparr>"

subsection \<open>The tracked drawing context\<close>

text \<open>
  The widget keeps the canvas transform in the 2D context, wrapped by \<open>trackTransforms\<close>
  of \<open>tracked-canvas.js\<close>. The current transform is the affine matrix
  \<open>(a, b, c, d, e, f)\<close> mapping \<open>(x, y)\<close> to \<open>(a x + c y + e, b x + d y + f)\<close>.
\<close>

record matrix =
  ma :: real
  mb :: real
  mc :: real
  md :: real
  me :: real
  mf :: real

definition identityMatrix :: matrix where
  "identityMatrix = \<lparr> ma = 1, mb = 0, mc = 0, md = 1, me = 0, mf = 0 \<rparr>"

definition det :: "matrix \<Rightarrow> real" where
  "det m = ma m * md m - mb m * mc m"

text \<open>
  Modelled from the spec: \<open>ctx.scale(sx, sy)\<close> as tracked by \<open>tracked-canvas.js\<close>, which
  is not among the sources. The tracker mirrors the call into the matrix; the canvas
  multiplies the current transform from the right.
\<close>

definition ctx_scale :: "real \<Rightarrow> real \<Rightarrow> matrix \<Rightarrow> matrix" where
  "ctx_scale sx sy m = m \<lparr> ma := ma m * sx, mb := mb m * sx, mc := mc m * sy, md := md m * sy \<rparr>"

text \<open>
  Modelled from the spec: \<open>ctx.translate(tx, ty)\<close> as tracked by \<open>tracked-canvas.js\<close>,
  mirrored into the matrix in the same way.
\<close>

definition ctx_translate :: "real \<Rightarrow> real \<Rightarrow> matrix \<Rightarrow> matrix" where
  "ctx_translate tx ty m =
     m \<lparr> me := ma m * tx + mc m * ty + me m, mf := mb m * tx + md m * ty + mf m \<rparr>"

text \<open>
  Modelled from the spec: \<open>transformedPoint(screenX, screenY)\<close> of \<open>tracked-canvas.js\<close>
  applies the inverse matrix. The quotient by the determinant is meaningful for an
  invertible matrix only.
\<close>

definition transformedPoint :: "matrix \<Rightarrow> point \<Rightarrow> point" where
  "transformedPoint m p =
     ((md m * (fst p - me m) - mc m * (snd p - mf m)) / det m,
      (ma m * (snd p - mf m) - mb m * (fst p - me m)) / det m)"

text \<open>
  Modelled from the spec: \<open>getScaleFactor2d()\<close> of \<open>tracked-canvas.js\<close> returns the
  magnitude of the matrix's linear component per axis.
\<close>

definition getScaleFactor2d :: "matrix \<Rightarrow> real \<times> real" where
  "getScaleFactor2d m =
     (sqrt (ma m * ma m + mb m * mb m), sqrt (mc m * mc m + md m * md m))"

subsection \<open>The interface of \<open>locations.js\<close>\<close>

text \<open>
  The handlers \<open>tap\<close> and \<open>translate\<close> of a location, and the constructors, are code of
  \<open>locations.js\<close>, which is not among the sources; they are parameters of the model.
  A handler returns \<open>{updatedLocation, stopPropagation}\<close>; an absent (falsy)
  \<open>updatedLocation\<close> is \<open>None\<close>, and \<open>stopPropagation\<close> is the test
  \<open>result.stopPropagation === true\<close>.
\<close>

record handlerResult =
  updatedLocation :: "location option"
  stopPropagation :: bool

record locations_js =
  newGotoPointActive :: bool
  newZoneActive :: bool
  hasTranslate :: "location \<Rightarrow> bool"
  tapHandler :: "location \<Rightarrow> point \<Rightarrow> matrix \<Rightarrow> handlerResult"
  translateHandler :: "location \<Rightarrow> point \<Rightarrow> point \<Rightarrow> point \<Rightarrow> matrix \<Rightarrow> handlerResult"

text \<open>
  \<open>newGotoPointActive\<close> and \<open>newZoneActive\<close> are the values of \<open>active\<close> that the two
  constructors set; \<open>hasTranslate location\<close> is the test
  \<open>typeof location.translate === "function"\<close>, which guards both loops.
\<close>

subsection \<open>Dispatch of a gesture over the locations\<close>

text \<open>\<open>this.locations.splice(i, 1)\<close>\<close>

definition splice1 :: "nat \<Rightarrow> 'a list \<Rightarrow> 'a list" where
  "splice1 i xs = take i xs @ drop (Suc i) xs"

text \<open>
  The body of the loop after the handler has returned: either \<open>this.locations[i]\<close> is
  overwritten, or the element is spliced out and \<open>i\<close> decremented. The second component is
  the index of the next iteration, after the loop's own \<open>++i\<close> (so \<open>i--\<close> then \<open>++i\<close>
  gives \<open>i\<close> again).
\<close>

definition applyResult :: "handlerResult \<Rightarrow> nat \<Rightarrow> location list \<Rightarrow> location list \<times> nat" where
  "applyResult result i locs =
     (case updatedLocation result of
        Some l \<Rightarrow> (locs[i := l], Suc i)
      | None \<Rightarrow> (splice1 i locs, i))"

text \<open>
  The loop \<open>for(let i = 0; i < this.locations.length; ++i)\<close> of \<open>tap\<close> and of
  \<open>moveTranslate\<close>; the two copies differ in the handler called (\<open>h\<close>) only. The result
  is the list, whether the loop left through \<open>return\<close> (a handler stopped propagation),
  and the locations the handler was called on, in call order (\<open>called\<close> records the calls;
  it is not a variable of the source).
\<close>

function dispatchLoop ::
  "(location \<Rightarrow> bool) \<Rightarrow> (location \<Rightarrow> handlerResult) \<Rightarrow> nat \<Rightarrow> location list \<Rightarrow> location list
     \<Rightarrow> location list \<times> bool \<times> location list" where
  "dispatchLoop ht h i locs called =
     (if i < length locs then
        (if ht (locs ! i) then
           (if stopPropagation (h (locs ! i))
            then (fst (applyResult (h (locs ! i)) i locs), True, called @ [locs ! i])
            else dispatchLoop ht h (snd (applyResult (h (locs ! i)) i locs))
                   (fst (applyResult (h (locs ! i)) i locs)) (called @ [locs ! i]))
         else dispatchLoop ht h (Suc i) locs called)
      else (locs, False, called))"
  by pat_completeness auto
termination
  by (relation "measure (\<lambda>(ht, h, i, locs, called). length locs - i)")
     (auto simp: applyResult_def splice1_def split: option.splits)

declare dispatchLoop.simps [simp del]

subsection \<open>The widget and its gesture handlers\<close>

text \<open>
  The state of a \<open>VacuumMap\<close> after \<open>_initCanvas\<close>: the locations, the tracked transform
  of the context, the closure variables \<open>lastX\<close>, \<open>lastY\<close>, \<open>dragStart\<close> and
  \<open>lastScaleFactor\<close>, and \<open>rect\<close>, the \<open>(left, top)\<close> of the element's bounding client
  rectangle. \<open>pathDrawerScaleCalls\<close> lists the arguments of the calls
  \<open>this.pathDrawer.scale(...)\<close> made so far, oldest first.

  \<open>redraw()\<close> paints the canvas from this state and leaves it as it is (it saves and
  restores the transform, and its two \<open>ctx.scale\<close> calls, by \<open>1 / pathScale\<close> and by
  \<open>pathScale\<close>, cancel); painting is not part of the model.
\<close>

record widget =
  locations :: "location list"
  ctx :: matrix
  rect :: "real \<times> real"
  lastX :: real
  lastY :: real
  dragStart :: "point option"
  lastScaleFactor :: real
  pathDrawerScaleCalls :: "real list"

datatype error = TypeError | RangeError

definition startTranslate :: "point \<Rightarrow> widget \<Rightarrow> widget" where
  "startTranslate coordinates st =
     (let p = relativeCoordinates coordinates (rect st)
      in st \<lparr> lastX := fst p, lastY := snd p, dragStart := Some (transformedPoint (ctx st) p) \<rparr>)"

text \<open>
  \<open>moveTranslate\<close>. \<open>dragStart.matrixTransform(ctx.getTransform().inverse())\<close> is the
  inverse matrix applied to \<open>dragStart\<close>. The filter \<open>location !== null\<close> after the loop
  keeps every element: no assignment stores \<open>null\<close> in the list.
\<close>

definition moveTranslate :: "locations_js \<Rightarrow> point \<Rightarrow> widget \<Rightarrow> widget" where
  "moveTranslate L currentCoordinates st =
     (let p = relativeCoordinates currentCoordinates (rect st);
          oldX = lastX st;
          oldY = lastY st;
          st1 = st \<lparr> lastX := fst p, lastY := snd p \<rparr>
      in case dragStart st of
           None \<Rightarrow> st1
         | Some ds \<Rightarrow>
             (let r = dispatchLoop (hasTranslate L)
                        (\<lambda>location. translateHandler L location
                           (transformedPoint (ctx st) ds) (oldX, oldY) p (ctx st))
                        0 (locations st) []
              in if fst (snd r) then st1 \<lparr> locations := fst r \<rparr>
                 else (let pt = transformedPoint (ctx st) p
                       in st1 \<lparr> locations := fst r,
                                ctx := ctx_translate (fst pt - fst ds) (snd pt - snd ds) (ctx st) \<rparr>)))"

definition endTranslate :: "widget \<Rightarrow> widget" where
  "endTranslate st = st \<lparr> dragStart := None \<rparr>"

text \<open>
  \<open>tap\<close>. The loop tests \<open>typeof location.translate === "function"\<close> and then calls
  \<open>location.tap\<close>.
\<close>

definition tap :: "locations_js \<Rightarrow> point \<Rightarrow> widget \<Rightarrow> widget" where
  "tap L tappedCoordinates st =
     (let p = relativeCoordinates tappedCoordinates (rect st);
          tappedPoint = transformedPoint (ctx st) p;
          r = dispatchLoop (hasTranslate L) (\<lambda>location. tapHandler L location p (ctx st))
                0 (locations st) [];
          locs = fst r
      in if fst (snd r) then st \<lparr> locations := locs \<rparr>
         else if length locs = 0
           then st \<lparr> locations :=
                  locs @ [GotoPoint (fst tappedPoint) (snd tappedPoint) (newGotoPointActive L)] \<rparr>
         else if length locs = 1 \<and> isGotoPoint (locs ! 0)
           then st \<lparr> locations :=
                  locs[0 := GotoPoint (fst tappedPoint) (snd tappedPoint) (newGotoPointActive L)] \<rparr>
         else st \<lparr> locations := locs \<rparr>)"

definition addZone :: "locations_js \<Rightarrow> widget \<Rightarrow> widget" where
  "addZone L st =
     (let newZone = Zone 480 480 550 550 (newZoneActive L)
      in st \<lparr> locations := map (setActive False) (locations st) @ [newZone] \<rparr>)"

definition startPinch :: "point \<Rightarrow> widget \<Rightarrow> widget" where
  "startPinch center st =
     (let p = relativeCoordinates center (rect st)
      in st \<lparr> lastScaleFactor := 1, lastX := fst p, lastY := snd p,
              dragStart := Some (transformedPoint (ctx st) p) \<rparr>)"

text \<open>
  Modelled from the spec: \<open>scale(factor)\<close> of \<open>path-drawer.js\<close>, which is not among
  the sources, is the rescale of the path layer; the model records the call and its
  argument.
\<close>

definition pathDrawer_scale :: "real \<Rightarrow> widget \<Rightarrow> widget" where
  "pathDrawer_scale factor st =
     st \<lparr> pathDrawerScaleCalls := pathDrawerScaleCalls st @ [factor] \<rparr>"

definition endPinch :: "widget \<Rightarrow> widget" where
  "endPinch st = endTranslate (pathDrawer_scale (fst (getScaleFactor2d (ctx st))) st)"

text \<open>
  \<open>scalePinch\<close>: the event carries \<open>evt.scale\<close> and \<open>evt.center\<close>. The first
  \<open>transformedPoint\<close> takes \<open>evt.center\<close> as it is, the second the coordinates relative to
  the element. Reading \<open>dragStart.x\<close> throws when no pinch or pan has begun (the model
  stops at the error).
\<close>

definition scalePinch :: "real \<times> point \<Rightarrow> widget \<Rightarrow> error + widget" where
  "scalePinch evt st =
     (let factor = fst evt / lastScaleFactor st;
          pt = transformedPoint (ctx st) (snd evt);
          c1 = ctx_translate (- fst pt) (- snd pt)
                 (ctx_scale factor factor (ctx_translate (fst pt) (snd pt) (ctx st)));
          q = relativeCoordinates (snd evt) (rect st);
          p = transformedPoint c1 q
      in case dragStart st of
           None \<Rightarrow> Inl TypeError
         | Some ds \<Rightarrow>
             Inr (st \<lparr> lastScaleFactor := fst evt, lastX := fst q, lastY := snd q,
                       ctx := ctx_translate (fst p - fst ds) (snd p - snd ds) c1 \<rparr>))"






text \<open>
  The quotient \<open>a / b\<close> of two finite JavaScript numbers, where the divisor may be zero:
  a division by zero gives \<open>Infinity\<close> with the sign of \<open>a\<close>, or \<open>NaN\<close> for
  \<open>0 / 0\<close> (the divisor of \<open>_initCanvas\<close>, a difference, is never the negative zero).
\<close>

datatype number = Finite real | PosInfinity | NegInfinity | NaN

definition divideNumbers :: "real \<Rightarrow> real \<Rightarrow> number" where
  "divideNumbers a b =
     (if b \<noteq> 0 then Finite (a / b)
      else if 0 < a then PosInfinity
      else if a < 0 then NegInfinity
      else NaN)"

text \<open>\<open>Math.min\<close> of two numbers: \<open>NaN\<close> if either is, else the smaller.\<close>

fun Math_min :: "number \<Rightarrow> number \<Rightarrow> number" where
  "Math_min NaN y = NaN"
| "Math_min x NaN = NaN"
| "Math_min NegInfinity y = NegInfinity"
| "Math_min x NegInfinity = NegInfinity"
| "Math_min PosInfinity y = y"
| "Math_min x PosInfinity = x"
| "Math_min (Finite a) (Finite b) = Finite (min a b)"

text \<open>
  \<open>_initCanvas(data)\<close>, as far as the state goes: \<open>canvasSize\<close> is the \<open>(width, height)\<close> of
  the canvas element, \<open>box\<close> is \<open>(left, top, width, height)\<close> of \<open>data.image\<close>
  (\<open>position\<close> and \<open>dimensions\<close>). A new context starts with the identity transform;
  \<open>locs\<close> is \<open>this.locations\<close> at that moment (empty since the constructor unless
  \<open>addZone\<close> ran before). An image without width or height makes a quotient infinite,
  and \<open>Math.min\<close> picks the other one; when the initial scaling factor itself is not
  finite, the transform gets entries that the matrix of the model does not hold, and the
  result is \<open>None\<close>.
\<close>

definition initCanvas ::
  "real \<times> real \<Rightarrow> real \<times> real \<Rightarrow> real \<times> real \<times> real \<times> real \<Rightarrow> location list
     \<Rightarrow> widget option" where
  "initCanvas canvasSize elementRect box locs =
     (case box of (imgLeft, imgTop, imgWidth, imgHeight) \<Rightarrow>
        (let minX = imgLeft;
             minY = imgTop;
             maxX = imgLeft + imgWidth;
             maxY = imgTop + imgHeight
         in case Math_min (divideNumbers (fst canvasSize) (maxX - minX))
                          (divideNumbers (snd canvasSize) (maxY - minY)) of
              Finite initialScalingFactor \<Rightarrow>
                Some \<lparr> locations = locs,
                       ctx = ctx_translate (- minX) (- minY)
                               (ctx_scale initialScalingFactor initialScalingFactor identityMatrix),
                       rect = elementRect,
                       lastX = fst canvasSize / 2,
                       lastY = snd canvasSize / 2,
                       dragStart = None,
                       lastScaleFactor = 1,
                       pathDrawerScaleCalls = [initialScalingFactor] \<rparr>
            | PosInfinity \<Rightarrow> None
            | NegInfinity \<Rightarrow> None
            | NaN \<Rightarrow> None))"

subsection \<open>Sequences of events\<close>

text \<open>Taps and \<open>addZone\<close> calls, run in order.\<close>

datatype operation = Tap point | AddZone

fun applyOperation :: "locations_js \<Rightarrow> widget \<Rightarrow> operation \<Rightarrow> widget" where
  "applyOperation L st (Tap tappedCoordinates) = tap L tappedCoordinates st"
| "applyOperation L st AddZone = addZone L st"

definition run :: "locations_js \<Rightarrow> widget \<Rightarrow> operation list \<Rightarrow> widget" where
  "run L st ops = foldl (applyOperation L) st ops"

definition gotoCount :: "location list \<Rightarrow> nat" where
  "gotoCount locs = length (filter isGotoPoint locs)"

text \<open>
  A pinch gesture: \<open>pinchstart\<close> with its center, the \<open>pinchmove\<close> events in order, then
  \<open>pinchend\<close>. An event handler that throws ends the run.
\<close>

fun scalePinches :: "(real \<times> point) list \<Rightarrow> widget \<Rightarrow> error + widget" where
  "scalePinches [] st = Inr st"
| "scalePinches (evt # evts) st =
     (case scalePinch evt st of Inl e \<Rightarrow> Inl e | Inr st' \<Rightarrow> scalePinches evts st')"

definition pinchGesture :: "point \<Rightarrow> (real \<times> point) list \<Rightarrow> widget \<Rightarrow> error + widget" where
  "pinchGesture center moves st =
     (case scalePinches moves (startPinch center st) of
        Inl e \<Rightarrow> Inl e
      | Inr st' \<Rightarrow> Inr (endPinch st'))"

subsection \<open>What one location leaves in the list\<close>

text \<open>
  The elements that the loop leaves in place of a location: the location itself when it has
  no \<open>translate\<close> function, else the handler's \<open>updatedLocation\<close>, or nothing when that is
  absent.
\<close>

definition keptAfter ::
  "(location \<Rightarrow> bool) \<Rightarrow> (location \<Rightarrow> handlerResult) \<Rightarrow> location \<Rightarrow> location list" where
  "keptAfter ht h l =
     (if ht l then (case updatedLocation (h l) of Some l' \<Rightarrow> [l'] | None \<Rightarrow> []) else [l])"

text \<open>
  The call that the loop of \<open>tap\<close>, and that of \<open>moveTranslate\<close>, makes on a location:
  the handler with the arguments of the gesture (\<open>ds\<close> is \<open>dragStart\<close>).
\<close>

definition tapCall :: "locations_js \<Rightarrow> point \<Rightarrow> widget \<Rightarrow> location \<Rightarrow> handlerResult" where
  "tapCall L tappedCoordinates st location =
     tapHandler L location (relativeCoordinates tappedCoordinates (rect st)) (ctx st)"

definition translateCall ::
  "locations_js \<Rightarrow> point \<Rightarrow> widget \<Rightarrow> point \<Rightarrow> location \<Rightarrow> handlerResult" where
  "translateCall L currentCoordinates st ds location =
     translateHandler L location (transformedPoint (ctx st) ds) (lastX st, lastY st)
       (relativeCoordinates currentCoordinates (rect st)) (ctx st)"

subsection \<open>Example handlers and states\<close>

text \<open>
  A handler that removes a zone whose \<open>x1\<close> is 0, consumes the event on a zone whose
  \<open>x1\<close> is 2 (toggling \<open>active\<close>), deactivates any other zone, and passes a goto point
  through.
\<close>

fun exampleHandler :: "location \<Rightarrow> handlerResult" where
  "exampleHandler (Zone zx1 zy1 zx2 zy2 act) =
     (if zx1 = 0 then \<lparr> updatedLocation = None, stopPropagation = False \<rparr>
      else if zx1 = 2
        then \<lparr> updatedLocation = Some (Zone zx1 zy1 zx2 zy2 (\<not> act)), stopPropagation = True \<rparr>
      else \<lparr> updatedLocation = Some (Zone zx1 zy1 zx2 zy2 False), stopPropagation = False \<rparr>)"
| "exampleHandler (GotoPoint gx gy act) =
     \<lparr> updatedLocation = Some (GotoPoint gx gy act), stopPropagation = False \<rparr>"

definition exampleLocations :: locations_js where
  "exampleLocations =
     \<lparr> newGotoPointActive = False, newZoneActive = True, hasTranslate = (\<lambda>location. True),
       tapHandler = (\<lambda>location p m. exampleHandler location),
       translateHandler = (\<lambda>location s p q m. exampleHandler location) \<rparr>"

text \<open>
  A \<open>translate\<close> handler that moves an active zone by the step of the pointer and consumes
  the event, removes an inactive zone whose \<open>x1\<close> is 0, and passes any other location
  through.
\<close>

fun exampleTranslate :: "location \<Rightarrow> point \<Rightarrow> point \<Rightarrow> point \<Rightarrow> matrix \<Rightarrow> handlerResult" where
  "exampleTranslate (Zone zx1 zy1 zx2 zy2 act) start prev cur m =
     (if act
        then \<lparr> updatedLocation =
                 Some (Zone (zx1 + (fst cur - fst prev)) (zy1 + (snd cur - snd prev))
                         (zx2 + (fst cur - fst prev)) (zy2 + (snd cur - snd prev)) act),
               stopPropagation = True \<rparr>
      else if zx1 = 0 then \<lparr> updatedLocation = None, stopPropagation = False \<rparr>
      else \<lparr> updatedLocation = Some (Zone zx1 zy1 zx2 zy2 act), stopPropagation = False \<rparr>)"
| "exampleTranslate (GotoPoint gx gy act) start prev cur m =
     \<lparr> updatedLocation = Some (GotoPoint gx gy act), stopPropagation = False \<rparr>"

text \<open>Locations of which only the zones have a \<open>translate\<close> function.\<close>

definition zoneLocations :: locations_js where
  "zoneLocations =
     \<lparr> newGotoPointActive = False, newZoneActive = True, hasTranslate = isZone,
       tapHandler = (\<lambda>location p m. exampleHandler location),
       translateHandler = exampleTranslate \<rparr>"

text \<open>A widget with the identity transform, at the origin of the page, without locations.\<close>

definition exampleWidget :: widget where
  "exampleWidget =
     \<lparr> locations = [], ctx = identityMatrix, rect = (0, 0), lastX = 0, lastY = 0,
       dragStart = None, lastScaleFactor = 1, pathDrawerScaleCalls = [] \<rparr>"

text \<open>The same widget with the locations \<open>locs\<close>, in a pan that began at (10, 10).\<close>

definition dragWidget :: "location list \<Rightarrow> widget" where
  "dragWidget locs =
     exampleWidget \<lparr> locations := locs, lastX := 10, lastY := 10, dragStart := Some (10, 10) \<rparr>"

section \<open>The raw-map renderer (client/js/Map.js)\<close>

type_synonym byte = "8 word"

text \<open>
  The argument of \<open>updateMapData\<close>: the array buffers \<open>test.map\<close> and \<open>test.path\<close> as
  byte lists (\<open>path\<close> may be absent).
\<close>

record rawData =
  mapBuffer :: "byte list"
  pathBuffer :: "byte list option"

text \<open>
  The state of a \<open>Map\<close>: its \<open>scale\<close>, the \<open>viewportPosition\<close> pair, the selected point,
  \<open>viewportRect\<close>, the \<open>(left, top)\<close> of the viewport's bounding client rectangle,
  \<open>drawCanvasData\<close>, the RGBA bytes of the 1024 by 1024 \<open>drawCanvas\<close>, and \<open>data\<close>.
\<close>

record rawMap =
  scale :: real
  viewportPosition :: "real \<times> real"
  selectedPoint :: "point option"
  viewportRect :: "real \<times> real"
  drawCanvasData :: "byte list"
  data :: "rawData option"


text \<open>
  The two viewport transforms are computed in JavaScript Numbers, that is IEEE 754 doubles:
  the result of \<open>+\<close>, \<open>-\<close>, \<open>*\<close> and \<open>/\<close> is the exact result rounded to the nearest
  double, ties to the even significand. \<open>roundDouble\<close> rounds a real number to 53
  significant bits in this way; the exponent is not bounded (no overflow to \<open>Infinity\<close>
  and no subnormal numbers, both far from the coordinates of a map).
\<close>

definition roundHalfEven :: "real \<Rightarrow> int" where
  "roundHalfEven y =
     (let f = \<lfloor>y\<rfloor>
      in if y - real_of_int f < 1 / 2 then f
         else if 1 / 2 < y - real_of_int f then f + 1
         else if even f then f else f + 1)"

definition roundDouble :: "real \<Rightarrow> real" where
  "roundDouble x =
     (if x = 0 then 0
      else (let q = 2 powr (real_of_int \<lfloor>log 2 \<bar>x\<bar>\<rfloor> - 52)
            in real_of_int (roundHalfEven (x / q)) * q))"

text \<open>
  \<open>transformViewportToMap\<close> and \<open>transformMapToViewport\<close>, each operation rounded as
  the code computes it.
\<close>

definition transformViewportToMap :: "rawMap \<Rightarrow> point \<Rightarrow> point" where
  "transformViewportToMap m p =
     (roundDouble (fst (viewportPosition m) + roundDouble (fst p / scale m)),
      roundDouble (snd (viewportPosition m) + roundDouble (snd p / scale m)))"

definition transformMapToViewport :: "rawMap \<Rightarrow> point \<Rightarrow> point" where
  "transformMapToViewport m p =
     (roundDouble (roundDouble (fst p - fst (viewportPosition m)) * scale m),
      roundDouble (roundDouble (snd p - snd (viewportPosition m)) * scale m))"

subsection \<open>Binary payloads\<close>

text \<open>
  \<open>DataView.getUint8(byteOffset)\<close> and \<open>DataView.getUint32(byteOffset)\<close> (big-endian, as
  no \<open>littleEndian\<close> argument is given); a read past the end of the buffer throws a
  \<open>RangeError\<close>.
\<close>

definition getUint8 :: "byte list \<Rightarrow> nat \<Rightarrow> error + byte" where
  "getUint8 view byteOffset =
     (if byteOffset < length view then Inr (view ! byteOffset) else Inl RangeError)"

definition uint32_of_bytes :: "byte \<Rightarrow> byte \<Rightarrow> byte \<Rightarrow> byte \<Rightarrow> 32 word" where
  "uint32_of_bytes b0 b1 b2 b3 =
     push_bit 24 (ucast b0) OR push_bit 16 (ucast b1) OR push_bit 8 (ucast b2) OR ucast b3"

definition getUint32 :: "byte list \<Rightarrow> nat \<Rightarrow> error + 32 word" where
  "getUint32 view byteOffset =
     (if byteOffset + 4 \<le> length view
      then Inr (uint32_of_bytes (view ! byteOffset) (view ! (byteOffset + 1))
                  (view ! (byteOffset + 2)) (view ! (byteOffset + 3)))
      else Inl RangeError)"

text \<open>
  The four writes into \<open>imageData.data\<close> for one record. The array is a
  \<open>Uint8ClampedArray\<close>: a write past its end is ignored, as \<open>list_update\<close> does.
\<close>

definition paintPixel :: "nat \<Rightarrow> byte \<Rightarrow> byte list \<Rightarrow> byte list" where
  "paintPixel pos r imageData =
     (if r = 0
      then imageData[pos := 102, pos + 1 := 153, pos + 2 := 255, pos + 3 := 255]
      else imageData[pos := 0, pos + 1 := 118, pos + 2 := 255, pos + 3 := 255])"

text \<open>
  The loop of \<open>updateMapData\<close> over \<open>new DataView(test.map)\<close>. \<open>getUint32(bytePos++)\<close>
  reads four bytes at \<open>bytePos\<close> and advances by one, \<open>bytePos += 3\<close> by three more; the
  three \<open>getUint8(bytePos++)\<close> read the next three bytes.
\<close>

function updateMapData_loop :: "byte list \<Rightarrow> nat \<Rightarrow> byte list \<Rightarrow> error + byte list" where
  "updateMapData_loop view bytePos imageData =
     (if bytePos < length view then
        (case getUint32 view bytePos of
           Inl e \<Rightarrow> Inl e
         | Inr pos \<Rightarrow>
             (case getUint8 view (bytePos + 4) of
                Inl e \<Rightarrow> Inl e
              | Inr r \<Rightarrow>
                  (case getUint8 view (bytePos + 5) of
                     Inl e \<Rightarrow> Inl e
                   | Inr g \<Rightarrow>
                       (case getUint8 view (bytePos + 6) of
                          Inl e \<Rightarrow> Inl e
                        | Inr b \<Rightarrow>
                            updateMapData_loop view (bytePos + 7)
                              (paintPixel (unat pos) r imageData)))))
      else Inr imageData)"
  by pat_completeness auto
termination
  by (relation "measure (\<lambda>(view, bytePos, imageData). length view - bytePos)") auto

declare updateMapData_loop.simps [simp del]

text \<open>
  The commands that \<open>drawPath\<close> issues on the viewport's context to build the path.
\<close>

datatype pathCommand = MoveTo real real | LineTo real real

text \<open>
  The loop of \<open>drawPath\<close> over \<open>new DataView(this.data.path)\<close>: two \<open>getUint32\<close> reads,
  each advancing \<open>bytePos\<close> by four.
\<close>

function drawPath_loop ::
  "rawMap \<Rightarrow> byte list \<Rightarrow> nat \<Rightarrow> bool \<Rightarrow> pathCommand list \<Rightarrow> error + pathCommand list" where
  "drawPath_loop m view bytePos first cmds =
     (if bytePos < length view then
        (case getUint32 view bytePos of
           Inl e \<Rightarrow> Inl e
         | Inr px \<Rightarrow>
             (case getUint32 view (bytePos + 4) of
                Inl e \<Rightarrow> Inl e
              | Inr py \<Rightarrow>
                  (let coord = transformMapToViewport m (real (unat px) / 4, real (unat py) / 4)
                   in drawPath_loop m view (bytePos + 8) False
                        (cmds @ [if first then MoveTo (fst coord) (snd coord)
                                 else LineTo (fst coord) (snd coord)]))))
      else Inr cmds)"
  by pat_completeness auto
termination
  by (relation "measure (\<lambda>(m, view, bytePos, first, cmds). length view - bytePos)") auto

declare drawPath_loop.simps [simp del]

definition drawPath :: "rawMap \<Rightarrow> error + pathCommand list" where
  "drawPath m =
     (case data m of
        None \<Rightarrow> Inr []
      | Some d \<Rightarrow>
          (case pathBuffer d of
             None \<Rightarrow> Inr []
           | Some view \<Rightarrow> drawPath_loop m view 0 True []))"

text \<open>
  \<open>updateMapData(test)\<close>. Assigning \<open>drawCanvas.width\<close> clears the canvas, so
  \<open>getImageData\<close> returns zero bytes. \<open>updateViewport()\<close> at the end runs \<open>drawPath\<close>,
  whose error leaves the function too.
\<close>

definition updateMapData :: "rawData \<Rightarrow> rawMap \<Rightarrow> error + rawMap" where
  "updateMapData test m =
     (case updateMapData_loop (mapBuffer test) 0 (replicate (1024 * 1024 * 4) 0) of
        Inl e \<Rightarrow> Inl e
      | Inr imageData \<Rightarrow>
          (let m' = m \<lparr> drawCanvasData := imageData, data := Some test \<rparr>
           in case drawPath m' of Inl e \<Rightarrow> Inl e | Inr cmds \<Rightarrow> Inr m'))"

subsection \<open>Record layouts\<close>

text \<open>The four bytes of a 32-bit value, most significant first.\<close>

definition be32 :: "32 word \<Rightarrow> byte list" where
  "be32 w = [ucast (drop_bit 24 w), ucast (drop_bit 16 w), ucast (drop_bit 8 w), ucast w]"

text \<open>
  The layouts that the two loops consume: an image record is the pixel index and the three
  colour bytes (7 bytes); a path record is the two coordinates (8 bytes).
\<close>

definition encodePixel :: "32 word \<times> byte \<times> byte \<times> byte \<Rightarrow> byte list" where
  "encodePixel rec = (case rec of (pos, r, g, b) \<Rightarrow> be32 pos @ [r, g, b])"

definition encodePoint :: "32 word \<times> 32 word \<Rightarrow> byte list" where
  "encodePoint rec = (case rec of (px, py) \<Rightarrow> be32 px @ be32 py)"

text \<open>
  The layouts in the words of the specification: three bytes of padding after every 4-byte
  field (10 bytes for an image record, 14 for a path record).
\<close>

definition encodePixel_padded :: "32 word \<times> byte \<times> byte \<times> byte \<Rightarrow> byte list" where
  "encodePixel_padded rec = (case rec of (pos, r, g, b) \<Rightarrow> be32 pos @ [0, 0, 0] @ [r, g, b])"

definition encodePoint_padded :: "32 word \<times> 32 word \<Rightarrow> byte list" where
  "encodePoint_padded rec = (case rec of (px, py) \<Rightarrow> be32 px @ [0, 0, 0] @ be32 py @ [0, 0, 0])"

text \<open>What the loops do with a list of decoded records.\<close>

definition paintPixels :: "(32 word \<times> byte \<times> byte \<times> byte) list \<Rightarrow> byte list \<Rightarrow> byte list" where
  "paintPixels recs imageData =
     foldl (\<lambda>img rec. case rec of (pos, r, g, b) \<Rightarrow> paintPixel (unat pos) r img) imageData recs"

definition pathPoint :: "rawMap \<Rightarrow> 32 word \<times> 32 word \<Rightarrow> point" where
  "pathPoint m rec =
     (case rec of (px, py) \<Rightarrow> transformMapToViewport m (real (unat px) / 4, real (unat py) / 4))"

fun pathCommands :: "rawMap \<Rightarrow> bool \<Rightarrow> (32 word \<times> 32 word) list \<Rightarrow> pathCommand list" where
  "pathCommands m first [] = []"
| "pathCommands m first (rec # recs) =
     (if first then MoveTo (fst (pathPoint m rec)) (snd (pathPoint m rec))
      else LineTo (fst (pathPoint m rec)) (snd (pathPoint m rec)))
     # pathCommands m False recs"

subsection \<open>Example events and states\<close>


text \<open>
  The widget after \<open>_initCanvas\<close> for a 1024 by 1024 image at the origin: on a canvas of
  512 by 512 the initial scale factor is 1/2, on one of 1024 by 1024 it is 1.
\<close>

definition halfScaleWidget :: widget where
  "halfScaleWidget = the (initCanvas (512, 512) (0, 0) (0, 0, 1024, 1024) [])"


definition exampleMap :: rawMap where
  "exampleMap =
     \<lparr> scale = 1, viewportPosition = (512, 512), selectedPoint = None, viewportRect = (0, 0),
       drawCanvasData = [], data = None \<rparr>"

text \<open>
  The raw map after one zoom-in from the scale 1: in doubles \<open>1 + 0.2 * 1\<close> is
  5404319552844595 / 2^52, the double nearest to 1.2.
\<close>

definition zoomedMap :: rawMap where
  "zoomedMap = exampleMap \<lparr> scale := 5404319552844595 / 4503599627370496 \<rparr>"

section \<open>Live updates (client/src: the websocket of the vacuum-map element)\<close>

text \<open>
  A decoded message: the fields \<open>image\<close>, \<open>path\<close> and \<open>robot\<close> that \<open>updateMap\<close> reads.
  \<open>JSON.parse\<close> is a parameter of the model: it returns a \<open>SyntaxError\<close>, or \<open>null\<close>, or
  a value with these three fields (each of which may be \<open>undefined\<close>, a value of its type).
\<close>

record ('i, 'p, 'r) mapFrame =
  image :: 'i
  path :: 'p
  robot :: 'r

datatype ('i, 'p, 'r) json = JsonNull | JsonValue "('i, 'p, 'r) mapFrame"

datatype parseError = SyntaxError

text \<open>
  What the element holds of the live data: the image of the map layer, the path, robot and
  charger of the path layer, and how often the heartbeat timer has been set anew
  (\<open>clearTimeout\<close> followed by \<open>setTimeout\<close>).
\<close>

record ('i, 'p, 'r) liveState =
  drawnImage :: 'i
  drawnPath :: 'p
  drawnRobot :: 'r
  drawnCharger :: "'r option"
  heartbeatResets :: nat

text \<open>
  Modelled from the spec: \<open>draw(image)\<close> of \<open>map-drawer.js\<close>, which is not among the
  sources, replaces the content of the image layer.
\<close>

definition mapDrawer_draw :: "'i \<Rightarrow> ('i, 'p, 'r) liveState \<Rightarrow> ('i, 'p, 'r) liveState" where
  "mapDrawer_draw img st = st \<lparr> drawnImage := img \<rparr>"

text \<open>
  Modelled from the spec: \<open>setPath(path, robot, charger)\<close> of \<open>path-drawer.js\<close>, which
  is not among the sources, replaces the path frame wholesale (an argument left out is
  \<open>undefined\<close>, here \<open>None\<close>).
\<close>

definition pathDrawer_setPath ::
  "'p \<Rightarrow> 'r \<Rightarrow> 'r option \<Rightarrow> ('i, 'p, 'r) liveState \<Rightarrow> ('i, 'p, 'r) liveState" where
  "pathDrawer_setPath pth rob charger st =
     st \<lparr> drawnPath := pth, drawnRobot := rob, drawnCharger := charger \<rparr>"

text \<open>
  \<open>updateMap(mapData)\<close>: reading \<open>mapData.image\<close> of \<open>null\<close> throws a \<open>TypeError\<close>
  before anything is drawn.
\<close>

definition updateMap ::
  "('i, 'p, 'r) json \<Rightarrow> ('i, 'p, 'r) liveState \<Rightarrow> error + ('i, 'p, 'r) liveState" where
  "updateMap mapData st =
     (case mapData of
        JsonNull \<Rightarrow> Inl TypeError
      | JsonValue frame \<Rightarrow>
          Inr (pathDrawer_setPath (path frame) (robot frame) None
                 (mapDrawer_draw (image frame) st)))"

text \<open>
  \<open>this.ws.onmessage\<close>: the timer is set anew, then a non-empty \<open>evt.data\<close> is parsed and
  passed to \<open>updateMap\<close> inside \<open>try\<close>; the \<open>catch\<close> clause is empty.
\<close>

definition onmessage ::
  "(string \<Rightarrow> parseError + ('i, 'p, 'r) json) \<Rightarrow> string \<Rightarrow> ('i, 'p, 'r) liveState
     \<Rightarrow> ('i, 'p, 'r) liveState" where
  "onmessage JSON_parse evtData st =
     (let st1 = st \<lparr> heartbeatResets := Suc (heartbeatResets st) \<rparr>
      in if evtData \<noteq> [] then
           (case JSON_parse evtData of
              Inl e \<Rightarrow> st1
            | Inr mapData \<Rightarrow>
                (case updateMap mapData st1 of
                   Inl e \<Rightarrow> st1
                 | Inr st2 \<Rightarrow> st2))
         else st1)"

text \<open>A parser for two messages, for evaluation.\<close>

definition exampleParse :: "string \<Rightarrow> parseError + (nat, nat list, nat) json" where
  "exampleParse s =
     (if s = ''{frame}'' then Inr (JsonValue \<lparr> image = 7, path = [1, 2], robot = 3 \<rparr>)
      else if s = ''null'' then Inr JsonNull
      else Inl SyntaxError)"

definition exampleLive :: "(nat, nat list, nat) liveState" where
  "exampleLive =
     \<lparr> drawnImage = 0, drawnPath = [], drawnRobot = 0, drawnCharger = Some 9,
       heartbeatResets = 0 \<rparr>"

section \<open>Properties of the map widget\<close>

subsection \<open>Coordinate conversion and zone normalisation\<close>

text \<open>
  C3. For every zone in the locations list, whichever corner lies past the other,
  \<open>getLocations\<close> converts the two corners independently with \<open>convertToRealCoords\<close> and emits the 4-tuple
  \<open>[minX, minY, maxX, maxY]\<close> with \<open>minX \<le> maxX\<close> and \<open>minY \<le> maxY\<close>.
\<close>

theorem getLocations_zone_normalized:
  "zones (getLocations (pre @ Zone zx1 zy1 zx2 zy2 act # post)) =
     zones (getLocations pre) @
     [[min \<lfloor>zx1 * 50\<rfloor> \<lfloor>zx2 * 50\<rfloor>, min \<lfloor>zy1 * 50\<rfloor> \<lfloor>zy2 * 50\<rfloor>,
       max \<lfloor>zx1 * 50\<rfloor> \<lfloor>zx2 * 50\<rfloor>, max \<lfloor>zy1 * 50\<rfloor> \<lfloor>zy2 * 50\<rfloor>]] @
     zones (getLocations post)
   \<and> min \<lfloor>zx1 * 50\<rfloor> \<lfloor>zx2 * 50\<rfloor> \<le> max \<lfloor>zx1 * 50\<rfloor> \<lfloor>zx2 * 50\<rfloor>
   \<and> min \<lfloor>zy1 * 50\<rfloor> \<lfloor>zy2 * 50\<rfloor> \<le> max \<lfloor>zy1 * 50\<rfloor> \<lfloor>zy2 * 50\<rfloor>"
  by (simp add: getLocations_def convertToRealCoords_def Let_def min_le_iff_disj)

text \<open>
  C4. Converting a map-space point to millimeters with \<open>convertToRealCoords\<close> and dividing
  the result by the scale factor 50 recovers each coordinate to within one unit (in fact
  the result lies at most 1/50 below the original and never above it).
\<close>

theorem convertToRealCoords_roundtrip:
  "\<bar>real_of_int (fst (convertToRealCoords (px, py))) / 50 - px\<bar> \<le> 1
   \<and> \<bar>real_of_int (snd (convertToRealCoords (px, py))) / 50 - py\<bar> \<le> 1
   \<and> real_of_int (fst (convertToRealCoords (px, py))) / 50 \<le> px
   \<and> px < real_of_int (fst (convertToRealCoords (px, py))) / 50 + 1 / 50
   \<and> real_of_int (snd (convertToRealCoords (px, py))) / 50 \<le> py
   \<and> py < real_of_int (snd (convertToRealCoords (px, py))) / 50 + 1 / 50"
proof -
  have fl: "real_of_int \<lfloor>c * 50\<rfloor> / 50 \<le> c \<and> c < real_of_int \<lfloor>c * 50\<rfloor> / 50 + 1 / 50"
    for c :: real
  proof -
    have "real_of_int \<lfloor>c * 50\<rfloor> \<le> c * 50" and "c * 50 < real_of_int \<lfloor>c * 50\<rfloor> + 1"
      by linarith+
    then show ?thesis by (simp add: field_simps)
  qed
  have ab: "\<bar>q - c\<bar> \<le> 1" if "q \<le> c \<and> c < q + 1 / 50" for q c :: real
    using that by linarith
  have cx: "fst (convertToRealCoords (px, py)) = \<lfloor>px * 50\<rfloor>"
    and cy: "snd (convertToRealCoords (px, py)) = \<lfloor>py * 50\<rfloor>"
    by (simp_all add: convertToRealCoords_def)
  show ?thesis
    unfolding cx cy using fl [of px] fl [of py] ab [OF fl [of px]] ab [OF fl [of py]]
    by blast
qed

subsection \<open>The dispatch loop\<close>

lemma dispatchLoop_step_skip:
  "\<not> ht x \<Longrightarrow> dispatchLoop ht h (length pfx) (pfx @ x # rest) called
     = dispatchLoop ht h (length (pfx @ keptAfter ht h x)) ((pfx @ keptAfter ht h x) @ rest) called"
  by (subst dispatchLoop.simps) (simp add: keptAfter_def)

lemma applyResult_at:
  "applyResult r (length pfx) (pfx @ x # rest) =
     (case updatedLocation r of Some l \<Rightarrow> (pfx @ l # rest, Suc (length pfx))
      | None \<Rightarrow> (pfx @ rest, length pfx))"
  by (simp add: applyResult_def splice1_def split: option.splits)

lemma dispatchLoop_step_call:
  "ht x \<Longrightarrow> \<not> stopPropagation (h x) \<Longrightarrow>
   dispatchLoop ht h (length pfx) (pfx @ x # rest) called
     = dispatchLoop ht h (length (pfx @ keptAfter ht h x)) ((pfx @ keptAfter ht h x) @ rest) (called @ [x])"
  by (subst dispatchLoop.simps) (simp add: keptAfter_def applyResult_at split: option.splits)

lemma dispatchLoop_step_stop:
  "ht x \<Longrightarrow> stopPropagation (h x) \<Longrightarrow>
   dispatchLoop ht h (length pfx) (pfx @ x # rest) called
     = (pfx @ keptAfter ht h x @ rest, True, called @ [x])"
  by (subst dispatchLoop.simps) (simp add: keptAfter_def applyResult_at split: option.splits)

lemma dispatchLoop_end:
  "dispatchLoop ht h (length pfx) pfx called = (pfx, False, called)"
  by (subst dispatchLoop.simps) simp

lemma dispatchLoop_no_stop:
  "\<forall>l \<in> set rest. ht l \<longrightarrow> \<not> stopPropagation (h l) \<Longrightarrow>
   dispatchLoop ht h (length pfx) (pfx @ rest) called
     = (pfx @ concat (map (keptAfter ht h) rest), False, called @ filter ht rest)"
proof (induction rest arbitrary: pfx called)
  case Nil
  then show ?case by (simp add: dispatchLoop_end)
next
  case (Cons x rest)
  show ?case
  proof (cases "ht x")
    case True
    with Cons.prems have ns: "\<not> stopPropagation (h x)" by simp
    from Cons.prems have r: "\<forall>l \<in> set rest. ht l \<longrightarrow> \<not> stopPropagation (h l)" by simp
    show ?thesis
      using Cons.IH [OF r, of "pfx @ keptAfter ht h x" "called @ [x]"] True
      by (simp add: dispatchLoop_step_call [where ht=ht and h=h and x=x, OF True ns])
  next
    case False
    from Cons.prems have r: "\<forall>l \<in> set rest. ht l \<longrightarrow> \<not> stopPropagation (h l)" by simp
    show ?thesis
      using Cons.IH [OF r, of "pfx @ keptAfter ht h x" called] False
      by (simp add: dispatchLoop_step_skip [where ht=ht and h=h and x=x, OF False])
  qed
qed

lemma dispatchLoop_first_stop:
  "\<forall>l \<in> set pre. ht l \<longrightarrow> \<not> stopPropagation (h l) \<Longrightarrow> ht s \<Longrightarrow> stopPropagation (h s) \<Longrightarrow>
   dispatchLoop ht h (length pfx) (pfx @ pre @ s # post) called
     = (pfx @ concat (map (keptAfter ht h) pre) @ keptAfter ht h s @ post, True, called @ filter ht pre @ [s])"
proof (induction pre arbitrary: pfx called)
  case Nil
  then show ?case by (simp add: dispatchLoop_step_stop)
next
  case (Cons x pre)
  from Cons.prems have r: "\<forall>l \<in> set pre. ht l \<longrightarrow> \<not> stopPropagation (h l)" by simp
  show ?case
  proof (cases "ht x")
    case True
    with Cons.prems have ns: "\<not> stopPropagation (h x)" by simp
    show ?thesis
      using Cons.IH [OF r Cons.prems(2,3), of "pfx @ keptAfter ht h x" "called @ [x]"] True
      by (simp add: dispatchLoop_step_call [where ht=ht and h=h and x=x, OF True ns])
  next
    case False
    show ?thesis
      using Cons.IH [OF r Cons.prems(2,3), of "pfx @ keptAfter ht h x" called] False
      by (simp add: dispatchLoop_step_skip [where ht=ht and h=h and x=x, OF False])
  qed
qed

lemma dispatchLoop_cases:
  obtains
    (no_stop) "\<forall>l \<in> set locs. ht l \<longrightarrow> \<not> stopPropagation (h l)"
      "dispatchLoop ht h 0 locs [] = (concat (map (keptAfter ht h) locs), False, filter ht locs)"
  | (stop) pre s post where "locs = pre @ s # post"
      "\<forall>l \<in> set pre. ht l \<longrightarrow> \<not> stopPropagation (h l)" "ht s" "stopPropagation (h s)"
      "dispatchLoop ht h 0 locs [] =
         (concat (map (keptAfter ht h) pre) @ keptAfter ht h s @ post, True, filter ht pre @ [s])"
proof (cases "\<exists>l \<in> set locs. ht l \<and> stopPropagation (h l)")
  case True
  from split_list_first_prop [OF True] obtain pre s post where
    d: "locs = pre @ s # post" "ht s \<and> stopPropagation (h s)"
       "\<forall>l \<in> set pre. \<not> (ht l \<and> stopPropagation (h l))"
    by blast
  from d(3) have p: "\<forall>l \<in> set pre. ht l \<longrightarrow> \<not> stopPropagation (h l)" by blast
  from dispatchLoop_first_stop [OF p, of s "[]" post "[]"] d
  have "dispatchLoop ht h 0 locs [] =
         (concat (map (keptAfter ht h) pre) @ keptAfter ht h s @ post, True, filter ht pre @ [s])"
    by simp
  with d p show ?thesis using stop by blast
next
  case False
  then have p: "\<forall>l \<in> set locs. ht l \<longrightarrow> \<not> stopPropagation (h l)" by blast
  from dispatchLoop_no_stop [OF p, of "[]" "[]"] p show ?thesis using no_stop by simp
qed

lemma dispatchLoop_single:
  "dispatchLoop ht h 0 [l] [] =
     (if ht l then (keptAfter ht h l, stopPropagation (h l), [l]) else ([l], False, []))"
proof (cases "ht l")
  case False
  then show ?thesis
    using dispatchLoop_no_stop [of "[l]" ht h "[]" "[]"] by (simp add: keptAfter_def)
next
  case True
  show ?thesis
  proof (cases "stopPropagation (h l)")
    case s: True
    with True show ?thesis
      using dispatchLoop_first_stop [of "[]" ht h l "[]" "[]" "[]"] by simp
  next
    case s: False
    with True show ?thesis
      using dispatchLoop_no_stop [of "[l]" ht h "[]" "[]"] by simp
  qed
qed

lemma tap_dispatch:
  "locations (tap L tc st) =
     (let r = dispatchLoop (hasTranslate L) (tapCall L tc st) 0 (locations st) [];
          tappedPoint = transformedPoint (ctx st) (relativeCoordinates tc (rect st))
      in if fst (snd r) then fst r
         else if fst r = []
           then [GotoPoint (fst tappedPoint) (snd tappedPoint) (newGotoPointActive L)]
         else if length (fst r) = 1 \<and> isGotoPoint (hd (fst r))
           then [GotoPoint (fst tappedPoint) (snd tappedPoint) (newGotoPointActive L)]
         else fst r)"
proof -
  have c: "tapCall L tc st
      = (\<lambda>location. tapHandler L location (relativeCoordinates tc (rect st)) (ctx st))"
    by (simp add: tapCall_def fun_eq_iff)
  define r where "r = dispatchLoop (hasTranslate L)
      (\<lambda>location. tapHandler L location (relativeCoordinates tc (rect st)) (ctx st))
      0 (locations st) []"
  have u: "xs[0 := g] = [g]" "xs ! 0 = hd xs" if "length xs = 1" for xs :: "location list" and g
    using that by (cases xs; simp)+
  show ?thesis
    unfolding tap_def c r_def [symmetric] Let_def
    by (cases "fst r = []") (auto simp: u)
qed

lemma moveTranslate_dispatch:
  assumes "dragStart st = Some ds"
  shows "locations (moveTranslate L cc st)
           = fst (dispatchLoop (hasTranslate L) (translateCall L cc st ds) 0 (locations st) [])"
    and "ctx (moveTranslate L cc st)
           = (if fst (snd (dispatchLoop (hasTranslate L) (translateCall L cc st ds) 0 (locations st) []))
              then ctx st
              else ctx_translate
                     (fst (transformedPoint (ctx st) (relativeCoordinates cc (rect st))) - fst ds)
                     (snd (transformedPoint (ctx st) (relativeCoordinates cc (rect st))) - snd ds)
                     (ctx st))"
proof -
  have c: "translateCall L cc st ds
      = (\<lambda>location. translateHandler L location (transformedPoint (ctx st) ds)
              (lastX st, lastY st) (relativeCoordinates cc (rect st)) (ctx st))"
    by (simp add: translateCall_def fun_eq_iff)
  show "locations (moveTranslate L cc st)
           = fst (dispatchLoop (hasTranslate L) (translateCall L cc st ds) 0 (locations st) [])"
    unfolding moveTranslate_def c using assms by (simp add: Let_def)
  show "ctx (moveTranslate L cc st)
           = (if fst (snd (dispatchLoop (hasTranslate L) (translateCall L cc st ds) 0 (locations st) []))
              then ctx st
              else ctx_translate
                     (fst (transformedPoint (ctx st) (relativeCoordinates cc (rect st))) - fst ds)
                     (snd (transformedPoint (ctx st) (relativeCoordinates cc (rect st))) - snd ds)
                     (ctx st))"
    unfolding moveTranslate_def c using assms by (simp add: Let_def)
qed

text \<open>
  C1. For every tap or pan-move gesture dispatched over the locations list, the locations
  are tested in list order (\<open>ht\<close> is the test for a \<open>translate\<close> function, \<open>h\<close> the
  handler of the gesture). The first location whose handler returns \<open>stopPropagation: true\<close>
  ends the dispatch: the handler is called on no later location and the later locations stay
  as they are. A location whose handler result omits \<open>updatedLocation\<close> leaves the list at
  once, and the remaining elements are visited in their order. \<open>tap\<close> and, during a pan,
  \<open>moveTranslate\<close> run this loop on \<open>this.locations\<close> with their handler call and keep
  its list: when a handler stops the gesture nothing else changes; otherwise \<open>tap\<close> goes
  on to place the goto point and \<open>moveTranslate\<close> to pan the map.
\<close>

theorem dispatch_in_list_order:
  "((\<forall>l \<in> set pre. ht l \<longrightarrow> \<not> stopPropagation (h l)) \<and> ht s \<and> stopPropagation (h s) \<longrightarrow>
      dispatchLoop ht h 0 (pre @ s # post) [] =
        (concat (map (keptAfter ht h) pre) @ keptAfter ht h s @ post, True, filter ht pre @ [s]))
   \<and> ((\<forall>l \<in> set locs. ht l \<longrightarrow> \<not> stopPropagation (h l)) \<longrightarrow>
      dispatchLoop ht h 0 locs [] = (concat (map (keptAfter ht h) locs), False, filter ht locs))
   \<and> (locations st = pre @ s # post
        \<and> (\<forall>l \<in> set pre. hasTranslate L l \<longrightarrow> \<not> stopPropagation (tapCall L tc st l))
        \<and> hasTranslate L s \<and> stopPropagation (tapCall L tc st s) \<longrightarrow>
      locations (tap L tc st) =
        concat (map (keptAfter (hasTranslate L) (tapCall L tc st)) pre)
          @ keptAfter (hasTranslate L) (tapCall L tc st) s @ post)
   \<and> ((\<forall>l \<in> set (locations st). hasTranslate L l \<longrightarrow> \<not> stopPropagation (tapCall L tc st l)) \<longrightarrow>
      locations (tap L tc st) =
        (if concat (map (keptAfter (hasTranslate L) (tapCall L tc st)) (locations st)) = []
            \<or> (length (concat (map (keptAfter (hasTranslate L) (tapCall L tc st)) (locations st))) = 1
                \<and> isGotoPoint
                     (hd (concat (map (keptAfter (hasTranslate L) (tapCall L tc st)) (locations st)))))
         then [GotoPoint (fst (transformedPoint (ctx st) (relativeCoordinates tc (rect st))))
                 (snd (transformedPoint (ctx st) (relativeCoordinates tc (rect st))))
                 (newGotoPointActive L)]
         else concat (map (keptAfter (hasTranslate L) (tapCall L tc st)) (locations st))))
   \<and> (dragStart st = Some ds \<and> locations st = pre @ s # post
        \<and> (\<forall>l \<in> set pre. hasTranslate L l \<longrightarrow> \<not> stopPropagation (translateCall L cc st ds l))
        \<and> hasTranslate L s \<and> stopPropagation (translateCall L cc st ds s) \<longrightarrow>
      locations (moveTranslate L cc st) =
        concat (map (keptAfter (hasTranslate L) (translateCall L cc st ds)) pre)
          @ keptAfter (hasTranslate L) (translateCall L cc st ds) s @ post
      \<and> ctx (moveTranslate L cc st) = ctx st)
   \<and> (dragStart st = Some ds
        \<and> (\<forall>l \<in> set (locations st).
              hasTranslate L l \<longrightarrow> \<not> stopPropagation (translateCall L cc st ds l)) \<longrightarrow>
      locations (moveTranslate L cc st) =
        concat (map (keptAfter (hasTranslate L) (translateCall L cc st ds)) (locations st))
      \<and> ctx (moveTranslate L cc st) =
          ctx_translate
            (fst (transformedPoint (ctx st) (relativeCoordinates cc (rect st))) - fst ds)
            (snd (transformedPoint (ctx st) (relativeCoordinates cc (rect st))) - snd ds)
            (ctx st))"
proof (intro conjI impI)
  assume "(\<forall>l \<in> set pre. ht l \<longrightarrow> \<not> stopPropagation (h l)) \<and> ht s \<and> stopPropagation (h s)"
  then show "dispatchLoop ht h 0 (pre @ s # post) [] =
        (concat (map (keptAfter ht h) pre) @ keptAfter ht h s @ post, True, filter ht pre @ [s])"
    using dispatchLoop_first_stop [of pre ht h s "[]" post "[]"] by simp
next
  assume "\<forall>l \<in> set locs. ht l \<longrightarrow> \<not> stopPropagation (h l)"
  then show "dispatchLoop ht h 0 locs [] = (concat (map (keptAfter ht h) locs), False, filter ht locs)"
    using dispatchLoop_no_stop [of locs ht h "[]" "[]"] by simp
next
  assume a: "locations st = pre @ s # post
        \<and> (\<forall>l \<in> set pre. hasTranslate L l \<longrightarrow> \<not> stopPropagation (tapCall L tc st l))
        \<and> hasTranslate L s \<and> stopPropagation (tapCall L tc st s)"
  then have "dispatchLoop (hasTranslate L) (tapCall L tc st) 0 (locations st) [] =
      (concat (map (keptAfter (hasTranslate L) (tapCall L tc st)) pre)
         @ keptAfter (hasTranslate L) (tapCall L tc st) s @ post, True,
       filter (hasTranslate L) pre @ [s])"
    using dispatchLoop_first_stop [of pre "hasTranslate L" "tapCall L tc st" s "[]" post "[]"]
    by simp
  then show "locations (tap L tc st) =
        concat (map (keptAfter (hasTranslate L) (tapCall L tc st)) pre)
          @ keptAfter (hasTranslate L) (tapCall L tc st) s @ post"
    by (simp add: tap_dispatch)
next
  assume "\<forall>l \<in> set (locations st). hasTranslate L l \<longrightarrow> \<not> stopPropagation (tapCall L tc st l)"
  then have "dispatchLoop (hasTranslate L) (tapCall L tc st) 0 (locations st) [] =
      (concat (map (keptAfter (hasTranslate L) (tapCall L tc st)) (locations st)), False,
       filter (hasTranslate L) (locations st))"
    using dispatchLoop_no_stop [of "locations st" "hasTranslate L" "tapCall L tc st" "[]" "[]"]
    by simp
  then show "locations (tap L tc st) =
        (if concat (map (keptAfter (hasTranslate L) (tapCall L tc st)) (locations st)) = []
            \<or> (length (concat (map (keptAfter (hasTranslate L) (tapCall L tc st)) (locations st))) = 1
                \<and> isGotoPoint
                     (hd (concat (map (keptAfter (hasTranslate L) (tapCall L tc st)) (locations st)))))
         then [GotoPoint (fst (transformedPoint (ctx st) (relativeCoordinates tc (rect st))))
                 (snd (transformedPoint (ctx st) (relativeCoordinates tc (rect st))))
                 (newGotoPointActive L)]
         else concat (map (keptAfter (hasTranslate L) (tapCall L tc st)) (locations st)))"
    by (simp add: tap_dispatch Let_def)
next
  assume a: "dragStart st = Some ds \<and> locations st = pre @ s # post
        \<and> (\<forall>l \<in> set pre. hasTranslate L l \<longrightarrow> \<not> stopPropagation (translateCall L cc st ds l))
        \<and> hasTranslate L s \<and> stopPropagation (translateCall L cc st ds s)"
  then have d: "dragStart st = Some ds" by simp
  from a have r: "dispatchLoop (hasTranslate L) (translateCall L cc st ds) 0 (locations st) [] =
      (concat (map (keptAfter (hasTranslate L) (translateCall L cc st ds)) pre)
         @ keptAfter (hasTranslate L) (translateCall L cc st ds) s @ post, True,
       filter (hasTranslate L) pre @ [s])"
    using dispatchLoop_first_stop [of pre "hasTranslate L" "translateCall L cc st ds" s "[]" post "[]"]
    by simp
  show "locations (moveTranslate L cc st) =
        concat (map (keptAfter (hasTranslate L) (translateCall L cc st ds)) pre)
          @ keptAfter (hasTranslate L) (translateCall L cc st ds) s @ post"
    by (simp add: moveTranslate_dispatch(1) [OF d] r)
  show "ctx (moveTranslate L cc st) = ctx st"
    by (simp add: moveTranslate_dispatch(2) [OF d] r)
next
  assume a: "dragStart st = Some ds
        \<and> (\<forall>l \<in> set (locations st).
              hasTranslate L l \<longrightarrow> \<not> stopPropagation (translateCall L cc st ds l))"
  then have d: "dragStart st = Some ds" by simp
  from a have r: "dispatchLoop (hasTranslate L) (translateCall L cc st ds) 0 (locations st) [] =
      (concat (map (keptAfter (hasTranslate L) (translateCall L cc st ds)) (locations st)), False,
       filter (hasTranslate L) (locations st))"
    using dispatchLoop_no_stop [of "locations st" "hasTranslate L" "translateCall L cc st ds" "[]" "[]"]
    by simp
  show "locations (moveTranslate L cc st) =
        concat (map (keptAfter (hasTranslate L) (translateCall L cc st ds)) (locations st))"
    by (simp add: moveTranslate_dispatch(1) [OF d] r)
  show "ctx (moveTranslate L cc st) =
          ctx_translate
            (fst (transformedPoint (ctx st) (relativeCoordinates cc (rect st))) - fst ds)
            (snd (transformedPoint (ctx st) (relativeCoordinates cc (rect st))) - snd ds)
            (ctx st)"
    by (simp add: moveTranslate_dispatch(2) [OF d] r)
qed

theorem dispatch_in_list_order_witness:
  "\<not> stopPropagation (exampleHandler (Zone 0 0 1 1 True))
   \<and> \<not> isZone (GotoPoint 5 5 False)
   \<and> \<not> stopPropagation (exampleHandler (Zone 3 3 4 4 True))
   \<and> isZone (Zone 2 2 3 3 True)
   \<and> stopPropagation (exampleHandler (Zone 2 2 3 3 True))
   \<and> dispatchLoop isZone exampleHandler 0
        ([Zone 0 0 1 1 True, GotoPoint 5 5 False, Zone 3 3 4 4 True] @ Zone 2 2 3 3 True
           # [Zone 0 7 8 9 True]) []
      = ([GotoPoint 5 5 False, Zone 3 3 4 4 False, Zone 2 2 3 3 False, Zone 0 7 8 9 True], True,
         [Zone 0 0 1 1 True, Zone 3 3 4 4 True, Zone 2 2 3 3 True])
   \<and> dispatchLoop isZone exampleHandler 0
        [Zone 0 0 1 1 True, GotoPoint 5 5 False, Zone 3 3 4 4 True] []
      = ([GotoPoint 5 5 False, Zone 3 3 4 4 False], False, [Zone 0 0 1 1 True, Zone 3 3 4 4 True])
   \<and> locations (tap zoneLocations (7, 8)
        (dragWidget [Zone 0 0 1 1 True, GotoPoint 5 5 False, Zone 3 3 4 4 True, Zone 2 2 3 3 True,
                     Zone 0 7 8 9 True]))
      = [GotoPoint 5 5 False, Zone 3 3 4 4 False, Zone 2 2 3 3 False, Zone 0 7 8 9 True]
   \<and> locations (tap zoneLocations (7, 8) (dragWidget [Zone 0 0 1 1 True])) = [GotoPoint 7 8 False]
   \<and> dragStart (dragWidget [Zone 0 0 1 1 False, GotoPoint 5 5 False, Zone 2 2 3 3 True,
                              Zone 4 4 5 5 True]) = Some (10, 10)
   \<and> locations (moveTranslate zoneLocations (13, 14)
        (dragWidget [Zone 0 0 1 1 False, GotoPoint 5 5 False, Zone 2 2 3 3 True, Zone 4 4 5 5 True]))
      = [GotoPoint 5 5 False, Zone 5 6 6 7 True, Zone 4 4 5 5 True]
   \<and> ctx (moveTranslate zoneLocations (13, 14)
        (dragWidget [Zone 0 0 1 1 False, GotoPoint 5 5 False, Zone 2 2 3 3 True, Zone 4 4 5 5 True]))
      = identityMatrix
   \<and> locations (moveTranslate zoneLocations (13, 14)
        (dragWidget [Zone 0 0 1 1 False, GotoPoint 5 5 False]))
      = [GotoPoint 5 5 False]
   \<and> ctx (moveTranslate zoneLocations (13, 14)
        (dragWidget [Zone 0 0 1 1 False, GotoPoint 5 5 False]))
      = identityMatrix \<lparr> me := 3, mf := 4 \<rparr>"
proof -
  note defs = keptAfter_def tapCall_def translateCall_def zoneLocations_def dragWidget_def
    exampleWidget_def relativeCoordinates_def transformedPoint_def det_def identityMatrix_def
    ctx_translate_def
  have loop: "dispatchLoop isZone exampleHandler 0
        ([Zone 0 0 1 1 True, GotoPoint 5 5 False, Zone 3 3 4 4 True] @ Zone 2 2 3 3 True
           # [Zone 0 7 8 9 True]) []
      = ([GotoPoint 5 5 False, Zone 3 3 4 4 False, Zone 2 2 3 3 False, Zone 0 7 8 9 True], True,
         [Zone 0 0 1 1 True, Zone 3 3 4 4 True, Zone 2 2 3 3 True])
   \<and> dispatchLoop isZone exampleHandler 0
        [Zone 0 0 1 1 True, GotoPoint 5 5 False, Zone 3 3 4 4 True] []
      = ([GotoPoint 5 5 False, Zone 3 3 4 4 False], False, [Zone 0 0 1 1 True, Zone 3 3 4 4 True])"
    using dispatch_in_list_order [where pre = "[Zone 0 0 1 1 True, GotoPoint 5 5 False, Zone 3 3 4 4 True]"
          and ht = isZone and h = exampleHandler and s = "Zone 2 2 3 3 True"
          and post = "[Zone 0 7 8 9 True]"
          and locs = "[Zone 0 0 1 1 True, GotoPoint 5 5 False, Zone 3 3 4 4 True]",
          THEN conjunct1]
      dispatch_in_list_order [where pre = "[Zone 0 0 1 1 True, GotoPoint 5 5 False, Zone 3 3 4 4 True]"
          and ht = isZone and h = exampleHandler and s = "Zone 2 2 3 3 True"
          and post = "[Zone 0 7 8 9 True]"
          and locs = "[Zone 0 0 1 1 True, GotoPoint 5 5 False, Zone 3 3 4 4 True]",
          THEN conjunct2, THEN conjunct1]
    by (simp add: keptAfter_def)
  have t1: "locations (tap zoneLocations (7, 8)
        (dragWidget [Zone 0 0 1 1 True, GotoPoint 5 5 False, Zone 3 3 4 4 True, Zone 2 2 3 3 True,
                     Zone 0 7 8 9 True]))
      = [GotoPoint 5 5 False, Zone 3 3 4 4 False, Zone 2 2 3 3 False, Zone 0 7 8 9 True]"
    using dispatch_in_list_order [where L = zoneLocations and tc = "(7, 8)"
          and st = "dragWidget [Zone 0 0 1 1 True, GotoPoint 5 5 False, Zone 3 3 4 4 True,
                                Zone 2 2 3 3 True, Zone 0 7 8 9 True]"
          and pre = "[Zone 0 0 1 1 True, GotoPoint 5 5 False, Zone 3 3 4 4 True]"
          and s = "Zone 2 2 3 3 True" and post = "[Zone 0 7 8 9 True]",
          THEN conjunct2, THEN conjunct2, THEN conjunct1]
    by (simp add: defs)
  have t2: "locations (tap zoneLocations (7, 8) (dragWidget [Zone 0 0 1 1 True]))
      = [GotoPoint 7 8 False]"
    using dispatch_in_list_order [where L = zoneLocations and tc = "(7, 8)"
          and st = "dragWidget [Zone 0 0 1 1 True]",
          THEN conjunct2, THEN conjunct2, THEN conjunct2, THEN conjunct1]
    by (simp add: defs)
  have m1: "locations (moveTranslate zoneLocations (13, 14)
        (dragWidget [Zone 0 0 1 1 False, GotoPoint 5 5 False, Zone 2 2 3 3 True, Zone 4 4 5 5 True]))
      = [GotoPoint 5 5 False, Zone 5 6 6 7 True, Zone 4 4 5 5 True]
    \<and> ctx (moveTranslate zoneLocations (13, 14)
        (dragWidget [Zone 0 0 1 1 False, GotoPoint 5 5 False, Zone 2 2 3 3 True, Zone 4 4 5 5 True]))
      = identityMatrix"
    using dispatch_in_list_order [where L = zoneLocations and cc = "(13, 14)" and ds = "(10, 10)"
          and st = "dragWidget [Zone 0 0 1 1 False, GotoPoint 5 5 False, Zone 2 2 3 3 True,
                                Zone 4 4 5 5 True]"
          and pre = "[Zone 0 0 1 1 False, GotoPoint 5 5 False]"
          and s = "Zone 2 2 3 3 True" and post = "[Zone 4 4 5 5 True]",
          THEN conjunct2, THEN conjunct2, THEN conjunct2, THEN conjunct2, THEN conjunct1]
    by (simp add: defs)
  have m2: "locations (moveTranslate zoneLocations (13, 14)
        (dragWidget [Zone 0 0 1 1 False, GotoPoint 5 5 False]))
      = [GotoPoint 5 5 False]
    \<and> ctx (moveTranslate zoneLocations (13, 14)
        (dragWidget [Zone 0 0 1 1 False, GotoPoint 5 5 False]))
      = identityMatrix \<lparr> me := 3, mf := 4 \<rparr>"
    using dispatch_in_list_order [where L = zoneLocations and cc = "(13, 14)" and ds = "(10, 10)"
          and st = "dragWidget [Zone 0 0 1 1 False, GotoPoint 5 5 False]",
          THEN conjunct2, THEN conjunct2, THEN conjunct2, THEN conjunct2, THEN conjunct2]
    by (simp add: defs)
  have d: "dragStart (dragWidget [Zone 0 0 1 1 False, GotoPoint 5 5 False, Zone 2 2 3 3 True,
                              Zone 4 4 5 5 True]) = Some (10, 10)"
    by (simp add: dragWidget_def)
  from loop t1 t2 m1 m2 d show ?thesis
    by simp
qed

subsection \<open>At most one goto point\<close>

lemma gotoCount_append [simp]: "gotoCount (xs @ ys) = gotoCount xs + gotoCount ys"
  by (simp add: gotoCount_def)

lemma gotoCount_keptAfter:
  assumes "\<And>l'. ht l \<Longrightarrow> updatedLocation (h l) = Some l' \<Longrightarrow> isGotoPoint l' \<Longrightarrow> isGotoPoint l"
  shows "gotoCount (keptAfter ht h l) \<le> gotoCount [l]"
  using assms by (auto simp: keptAfter_def gotoCount_def split: option.splits)

lemma gotoCount_concat_keptAfter:
  assumes "\<And>l l'. ht l \<Longrightarrow> updatedLocation (h l) = Some l' \<Longrightarrow> isGotoPoint l' \<Longrightarrow> isGotoPoint l"
  shows "gotoCount (concat (map (keptAfter ht h) locs)) \<le> gotoCount locs"
proof (induction locs)
  case Nil
  then show ?case by simp
next
  case (Cons x locs)
  have "gotoCount (keptAfter ht h x) \<le> gotoCount [x]"
    by (rule gotoCount_keptAfter) (rule assms)
  with Cons.IH show ?case
    using gotoCount_append [of "[x]" locs] by simp
qed

lemma gotoCount_dispatchLoop:
  assumes pres: "\<And>l l'. ht l \<Longrightarrow> updatedLocation (h l) = Some l' \<Longrightarrow> isGotoPoint l' \<Longrightarrow> isGotoPoint l"
  shows "gotoCount (fst (dispatchLoop ht h 0 locs [])) \<le> gotoCount locs"
proof (cases rule: dispatchLoop_cases [of locs ht h])
  case no_stop
  then show ?thesis by (simp add: gotoCount_concat_keptAfter [OF pres])
next
  case (stop pre s post)
  have a: "gotoCount (concat (map (keptAfter ht h) pre)) \<le> gotoCount pre"
    by (rule gotoCount_concat_keptAfter) (rule pres)
  have b: "gotoCount (keptAfter ht h s) \<le> gotoCount [s]"
    by (rule gotoCount_keptAfter) (rule pres)
  have c: "gotoCount (s # post) = gotoCount [s] + gotoCount post"
    by (simp add: gotoCount_def)
  have "gotoCount (fst (dispatchLoop ht h 0 locs [])) =
          gotoCount (concat (map (keptAfter ht h) pre)) + gotoCount (keptAfter ht h s) + gotoCount post"
    unfolding stop(5) by simp
  moreover have "gotoCount locs = gotoCount pre + gotoCount [s] + gotoCount post"
    unfolding stop(1) using c by simp
  ultimately show ?thesis using a b by linarith
qed

lemma gotoCount_tap:
  assumes pres: "\<And>l p m l'. hasTranslate L l \<Longrightarrow> updatedLocation (tapHandler L l p m) = Some l'
                   \<Longrightarrow> isGotoPoint l' \<Longrightarrow> isGotoPoint l"
    and inv: "gotoCount (locations st) \<le> 1"
  shows "gotoCount (locations (tap L tc st)) \<le> 1"
proof -
  let ?p = "relativeCoordinates tc (rect st)"
  let ?r = "dispatchLoop (hasTranslate L) (\<lambda>location. tapHandler L location ?p (ctx st))
              0 (locations st) []"
  have "gotoCount (fst ?r) \<le> gotoCount (locations st)"
    by (rule gotoCount_dispatchLoop) (rule pres)
  with inv have le: "gotoCount (fst ?r) \<le> 1" by simp
  have one: "gotoCount [GotoPoint a b c] = 1" for a b c
    by (simp add: gotoCount_def)
  have upd: "gotoCount (xs[0 := GotoPoint a b c]) = 1" if "length xs = 1" for xs a b c
    using that by (cases xs) (simp_all add: gotoCount_def)
  show ?thesis
    using le by (simp add: tap_def Let_def one upd)
qed

lemma gotoCount_addZone: "gotoCount (locations (addZone L st)) = gotoCount (locations st)"
proof -
  have "isGotoPoint (setActive v l) = isGotoPoint l" for v l
    by (cases l) simp_all
  then have "filter isGotoPoint (map (setActive False) xs) = map (setActive False) (filter isGotoPoint xs)" for xs
    by (induction xs) simp_all
  then show ?thesis
    by (simp add: addZone_def gotoCount_def)
qed

lemma gotoCount_run:
  assumes pres: "\<And>l p m l'. hasTranslate L l \<Longrightarrow> updatedLocation (tapHandler L l p m) = Some l'
                   \<Longrightarrow> isGotoPoint l' \<Longrightarrow> isGotoPoint l"
  shows "gotoCount (locations st) \<le> 1 \<Longrightarrow> gotoCount (locations (run L st ops)) \<le> 1"
  unfolding run_def
proof (induction ops arbitrary: st)
  case Nil
  then show ?case by simp
next
  case (Cons op ops)
  have "gotoCount (locations (applyOperation L st op)) \<le> 1"
  proof (cases op)
    case (Tap tc)
    then show ?thesis using gotoCount_tap [OF pres Cons.prems] by simp
  next
    case AddZone
    then show ?thesis using Cons.prems by (simp add: gotoCount_addZone)
  qed
  from Cons.IH [OF this] show ?case by simp
qed

text \<open>
  C2. In every state reached from a widget without locations by taps and \<open>addZone\<close> calls,
  the list holds at most one goto point; and a tap while the list is a single goto point
  leaves a list of length 1 that holds one goto point: the new point at the tapped position,
  unless the old point's own handler consumed the tap. The handlers of \<open>locations.js\<close>
  are taken to return a location of the class they were called on, and the handler of a goto
  point not to consume a tap while omitting \<open>updatedLocation\<close>.
\<close>

theorem at_most_one_GotoPoint:
  assumes cls: "\<forall>l p m l'. hasTranslate L l \<longrightarrow> updatedLocation (tapHandler L l p m) = Some l'
                  \<longrightarrow> isGotoPoint l' = isGotoPoint l"
    and keep: "\<forall>l p m. hasTranslate L l \<longrightarrow> isGotoPoint l \<longrightarrow> stopPropagation (tapHandler L l p m)
                  \<longrightarrow> updatedLocation (tapHandler L l p m) \<noteq> None"
  shows "(locations st0 = [] \<longrightarrow> gotoCount (locations (run L st0 ops)) \<le> 1)
     \<and> (locations st = [GotoPoint gx gy act] \<longrightarrow>
          length (locations (tap L tappedCoordinates st)) = 1
          \<and> gotoCount (locations (tap L tappedCoordinates st)) = 1
          \<and> (\<not> (hasTranslate L (GotoPoint gx gy act)
                 \<and> stopPropagation (tapHandler L (GotoPoint gx gy act)
                      (relativeCoordinates tappedCoordinates (rect st)) (ctx st))) \<longrightarrow>
               locations (tap L tappedCoordinates st) =
                 [GotoPoint
                    (fst (transformedPoint (ctx st) (relativeCoordinates tappedCoordinates (rect st))))
                    (snd (transformedPoint (ctx st) (relativeCoordinates tappedCoordinates (rect st))))
                    (newGotoPointActive L)]))"
proof (intro conjI impI)
  assume "locations st0 = []"
  then have "gotoCount (locations st0) \<le> 1" by (simp add: gotoCount_def)
  then show "gotoCount (locations (run L st0 ops)) \<le> 1"
    by (rule gotoCount_run [rotated]) (simp add: cls [rule_format])
next
  let ?g = "GotoPoint gx gy act"
  let ?p = "relativeCoordinates tappedCoordinates (rect st)"
  let ?res = "tapHandler L ?g ?p (ctx st)"
  assume one: "locations st = [?g]"
  have shape: "locations (tap L tappedCoordinates st) =
      (if hasTranslate L ?g \<and> stopPropagation ?res then [the (updatedLocation ?res)]
       else [GotoPoint (fst (transformedPoint (ctx st) ?p)) (snd (transformedPoint (ctx st) ?p))
               (newGotoPointActive L)])
      \<and> (hasTranslate L ?g \<and> stopPropagation ?res \<longrightarrow> isGotoPoint (the (updatedLocation ?res)))"
  proof (cases "hasTranslate L ?g")
    case False
    then show ?thesis
      by (simp add: tap_def one dispatchLoop_single Let_def)
  next
    case True
    show ?thesis
    proof (cases "updatedLocation ?res")
      case None
      with keep [rule_format, OF True, of ?p "ctx st"] have "\<not> stopPropagation ?res" by auto
      with True None show ?thesis
        by (simp add: tap_def one dispatchLoop_single Let_def keptAfter_def)
    next
      case (Some l')
      with cls [rule_format, OF True, of ?p "ctx st" l'] have "isGotoPoint l'" by simp
      with True Some show ?thesis
        by (simp add: tap_def one dispatchLoop_single Let_def keptAfter_def)
    qed
  qed
  from shape show "length (locations (tap L tappedCoordinates st)) = 1"
    by (simp split: if_splits)
  from shape show "gotoCount (locations (tap L tappedCoordinates st)) = 1"
    by (auto simp: gotoCount_def split: if_splits)
  assume "\<not> (hasTranslate L ?g \<and> stopPropagation ?res)"
  with shape show "locations (tap L tappedCoordinates st) =
      [GotoPoint (fst (transformedPoint (ctx st) ?p)) (snd (transformedPoint (ctx st) ?p))
         (newGotoPointActive L)]"
    by auto
qed

theorem at_most_one_GotoPoint_witness:
  "locations exampleWidget = []
   \<and> gotoCount (locations (run exampleLocations exampleWidget
         [Tap (100, 200), Tap (30, 40), AddZone, Tap (1, 1)])) \<le> 1
   \<and> locations (exampleWidget \<lparr> locations := [GotoPoint 100 200 False] \<rparr>) = [GotoPoint 100 200 False]
   \<and> length (locations (tap exampleLocations (30, 40)
         (exampleWidget \<lparr> locations := [GotoPoint 100 200 False] \<rparr>))) = 1
   \<and> locations (tap exampleLocations (30, 40)
         (exampleWidget \<lparr> locations := [GotoPoint 100 200 False] \<rparr>)) = [GotoPoint 30 40 False]"
proof -
  let ?w = "exampleWidget \<lparr> locations := [GotoPoint 100 200 False] \<rparr>"
  have cls: "\<forall>l p m l'. hasTranslate exampleLocations l
      \<longrightarrow> updatedLocation (tapHandler exampleLocations l p m) = Some l'
      \<longrightarrow> isGotoPoint l' = isGotoPoint l"
  proof (intro allI impI)
    fix l :: location and p :: point and m :: matrix and l' :: location
    assume "updatedLocation (tapHandler exampleLocations l p m) = Some l'"
    then show "isGotoPoint l' = isGotoPoint l"
      by (cases l) (auto simp: exampleLocations_def split: if_splits)
  qed
  have keep: "\<forall>l p m. hasTranslate exampleLocations l \<longrightarrow> isGotoPoint l
      \<longrightarrow> stopPropagation (tapHandler exampleLocations l p m)
      \<longrightarrow> updatedLocation (tapHandler exampleLocations l p m) \<noteq> None"
  proof (intro allI impI)
    fix l :: location and p :: point and m :: matrix
    assume "isGotoPoint l" "stopPropagation (tapHandler exampleLocations l p m)"
    then show "updatedLocation (tapHandler exampleLocations l p m) \<noteq> None"
      by (cases l) (auto simp: exampleLocations_def)
  qed
  note t = at_most_one_GotoPoint [of exampleLocations exampleWidget
            "[Tap (100, 200), Tap (30, 40), AddZone, Tap (1, 1)]" ?w 100 200 False "(30, 40)",
          OF cls keep]
  have e: "locations exampleWidget = []"
    by (simp add: exampleWidget_def)
  have l1: "locations ?w = [GotoPoint 100 200 False]"
    by simp
  have ns: "\<not> (hasTranslate exampleLocations (GotoPoint 100 200 False)
              \<and> stopPropagation (tapHandler exampleLocations (GotoPoint 100 200 False)
                   (relativeCoordinates (30, 40) (rect ?w)) (ctx ?w)))"
    by (simp add: exampleLocations_def)
  have tp: "transformedPoint (ctx ?w) (relativeCoordinates (30, 40) (rect ?w)) = (30, 40)"
    by (simp add: exampleWidget_def identityMatrix_def transformedPoint_def det_def
          relativeCoordinates_def)
  have na: "newGotoPointActive exampleLocations = False"
    by (simp add: exampleLocations_def)
  from t e have a: "gotoCount (locations (run exampleLocations exampleWidget
         [Tap (100, 200), Tap (30, 40), AddZone, Tap (1, 1)])) \<le> 1"
    by blast
  from t l1 have b: "length (locations (tap exampleLocations (30, 40) ?w)) = 1"
    by blast
  from t l1 ns have "locations (tap exampleLocations (30, 40) ?w) =
      [GotoPoint (fst (transformedPoint (ctx ?w) (relativeCoordinates (30, 40) (rect ?w))))
         (snd (transformedPoint (ctx ?w) (relativeCoordinates (30, 40) (rect ?w))))
         (newGotoPointActive exampleLocations)]"
    by blast
  then have c: "locations (tap exampleLocations (30, 40) ?w) = [GotoPoint 30 40 False]"
    unfolding tp na by simp
  from e a l1 b c show ?thesis by blast
qed

text \<open>
  C7. A tap whose map-space point is (100, 200), on a widget without locations, creates
  exactly one goto point at (100, 200), and \<open>getLocations\<close> then returns the goto points
  \<open>[{x: 5000, y: 10000}]\<close>.
\<close>

theorem tap_then_getLocations:
  assumes "locations st = []"
    and "transformedPoint (ctx st) (relativeCoordinates tappedCoordinates (rect st)) = (100, 200)"
  shows "locations (tap L tappedCoordinates st) = [GotoPoint 100 200 (newGotoPointActive L)]
     \<and> gotoPoints (getLocations (locations (tap L tappedCoordinates st))) = [(5000, 10000)]
     \<and> zones (getLocations (locations (tap L tappedCoordinates st))) = []"
proof -
  have r: "dispatchLoop ht h 0 [] [] = ([], False, [])" for ht h
    using dispatchLoop_end [of ht h "[]" "[]"] by simp
  have l: "locations (tap L tappedCoordinates st) = [GotoPoint 100 200 (newGotoPointActive L)]"
    using assms by (simp add: tap_def Let_def r)
  show ?thesis
    unfolding l by (simp add: getLocations_def convertToRealCoords_def)
qed

theorem tap_then_getLocations_witness:
  "locations exampleWidget = []
   \<and> transformedPoint (ctx exampleWidget) (relativeCoordinates (100, 200) (rect exampleWidget))
       = (100, 200)
   \<and> locations (tap exampleLocations (100, 200) exampleWidget) = [GotoPoint 100 200 False]
   \<and> gotoPoints (getLocations (locations (tap exampleLocations (100, 200) exampleWidget)))
       = [(5000, 10000)]"
proof -
  have e: "locations exampleWidget = []"
    by (simp add: exampleWidget_def)
  have tp: "transformedPoint (ctx exampleWidget) (relativeCoordinates (100, 200) (rect exampleWidget))
       = (100, 200)"
    by (simp add: exampleWidget_def identityMatrix_def transformedPoint_def det_def
          relativeCoordinates_def)
  have na: "newGotoPointActive exampleLocations = False"
    by (simp add: exampleLocations_def)
  note t = tap_then_getLocations [OF e tp, of exampleLocations, unfolded na]
  from e tp t show ?thesis by blast
qed

subsection \<open>Zooming\<close>

lemma ctx_translate_linear [simp]:
  "ma (ctx_translate tx ty m) = ma m" "mb (ctx_translate tx ty m) = mb m"
  "mc (ctx_translate tx ty m) = mc m" "md (ctx_translate tx ty m) = md m"
  by (simp_all add: ctx_translate_def)

lemma ctx_scale_linear [simp]:
  "ma (ctx_scale sx sy m) = ma m * sx" "mb (ctx_scale sx sy m) = mb m * sx"
  "mc (ctx_scale sx sy m) = mc m * sy" "md (ctx_scale sx sy m) = md m * sy"
  by (simp_all add: ctx_scale_def)

lemma det_ctx_translate [simp]: "det (ctx_translate tx ty m) = det m"
  by (simp add: det_def)

lemma det_ctx_scale [simp]: "det (ctx_scale sx sy m) = sx * sy * det m"
  by (simp add: det_def algebra_simps)

lemma scaleX_ctx_translate [simp]:
  "fst (getScaleFactor2d (ctx_translate tx ty m)) = fst (getScaleFactor2d m)"
  by (simp add: getScaleFactor2d_def)

lemma scaleX_ctx_scale [simp]:
  "fst (getScaleFactor2d (ctx_scale sx sy m)) = \<bar>sx\<bar> * fst (getScaleFactor2d m)"
proof -
  have "ma m * sx * (ma m * sx) + mb m * sx * (mb m * sx) = (sx * sx) * (ma m * ma m + mb m * mb m)"
    by (simp add: algebra_simps)
  then show ?thesis
    by (simp add: getScaleFactor2d_def real_sqrt_mult)
qed




lemma scalePinch_Some:
  assumes "dragStart st = Some ds"
  shows "\<exists>st'. scalePinch evt st = Inr st'
     \<and> fst (getScaleFactor2d (ctx st')) = \<bar>fst evt / lastScaleFactor st\<bar> * fst (getScaleFactor2d (ctx st))
     \<and> det (ctx st') = (fst evt / lastScaleFactor st)\<^sup>2 * det (ctx st)
     \<and> lastScaleFactor st' = fst evt \<and> dragStart st' = Some ds
     \<and> pathDrawerScaleCalls st' = pathDrawerScaleCalls st"
  using assms by (simp add: scalePinch_def Let_def power2_eq_square)




subsection \<open>The pinch gesture\<close>

lemma scalePinches_positive:
  assumes "\<forall>evt \<in> set moves. 0 < fst evt" and "0 < lastScaleFactor st" and "dragStart st = Some ds"
  shows "\<exists>st'. scalePinches moves st = Inr st'
     \<and> fst (getScaleFactor2d (ctx st')) * lastScaleFactor st
         = fst (getScaleFactor2d (ctx st)) * lastScaleFactor st'
     \<and> lastScaleFactor st' = last (lastScaleFactor st # map fst moves)
     \<and> dragStart st' = Some ds
     \<and> pathDrawerScaleCalls st' = pathDrawerScaleCalls st"
  using assms
proof (induction moves arbitrary: st)
  case Nil
  then show ?case by simp
next
  case (Cons evt moves)
  from scalePinch_Some [OF Cons.prems(3), of evt] obtain st1 where
    s1: "scalePinch evt st = Inr st1"
      "fst (getScaleFactor2d (ctx st1)) = \<bar>fst evt / lastScaleFactor st\<bar> * fst (getScaleFactor2d (ctx st))"
      "lastScaleFactor st1 = fst evt" "dragStart st1 = Some ds"
      "pathDrawerScaleCalls st1 = pathDrawerScaleCalls st"
    by blast
  from Cons.prems have pos: "0 < fst evt" and rest: "\<forall>evt \<in> set moves. 0 < fst evt" by simp_all
  from pos s1(3) have p1: "0 < lastScaleFactor st1" by simp
  from Cons.IH [OF rest p1 s1(4)] obtain st' where
    s2: "scalePinches moves st1 = Inr st'"
      "fst (getScaleFactor2d (ctx st')) * lastScaleFactor st1
         = fst (getScaleFactor2d (ctx st1)) * lastScaleFactor st'"
      "lastScaleFactor st' = last (lastScaleFactor st1 # map fst moves)"
      "dragStart st' = Some ds"
      "pathDrawerScaleCalls st' = pathDrawerScaleCalls st1"
    by blast
  from pos Cons.prems(2) have ab: "\<bar>fst evt / lastScaleFactor st\<bar> = fst evt / lastScaleFactor st"
    by simp
  have "fst (getScaleFactor2d (ctx st')) * fst evt
          = fst evt / lastScaleFactor st * fst (getScaleFactor2d (ctx st)) * lastScaleFactor st'"
    using s2(2) unfolding s1(2,3) ab by simp
  then have "fst (getScaleFactor2d (ctx st')) * lastScaleFactor st * fst evt
          = fst (getScaleFactor2d (ctx st)) * lastScaleFactor st' * fst evt"
    using Cons.prems(2) by (simp add: field_simps)
  with pos have eq: "fst (getScaleFactor2d (ctx st')) * lastScaleFactor st
          = fst (getScaleFactor2d (ctx st)) * lastScaleFactor st'"
    by simp
  show ?case
    using s1(1) s2(1) eq s2(3,4,5) s1(3,5) by simp
qed

lemma pinchGesture_calls:
  assumes "\<forall>evt \<in> set moves. 0 < fst evt"
  shows "\<exists>st1 st2. scalePinches moves (startPinch center st) = Inr st1
     \<and> pathDrawerScaleCalls st1 = pathDrawerScaleCalls st
     \<and> pinchGesture center moves st = Inr st2
     \<and> pathDrawerScaleCalls st2 =
         pathDrawerScaleCalls st @ [fst (getScaleFactor2d (ctx st)) * last (1 # map fst moves)]
     \<and> fst (getScaleFactor2d (ctx st2)) = fst (getScaleFactor2d (ctx st)) * last (1 # map fst moves)"
proof -
  let ?s0 = "startPinch center st"
  have l0: "lastScaleFactor ?s0 = 1" and c0: "ctx ?s0 = ctx st"
    and p0: "pathDrawerScaleCalls ?s0 = pathDrawerScaleCalls st"
    and d0: "dragStart ?s0 = Some (transformedPoint (ctx st) (relativeCoordinates center (rect st)))"
    by (simp_all add: startPinch_def Let_def)
  have pos: "0 < lastScaleFactor ?s0" unfolding l0 by simp
  from scalePinches_positive [OF assms pos d0] obtain st1 where
    s1: "scalePinches moves ?s0 = Inr st1"
      "fst (getScaleFactor2d (ctx st1)) * lastScaleFactor ?s0
         = fst (getScaleFactor2d (ctx ?s0)) * lastScaleFactor st1"
      "lastScaleFactor st1 = last (lastScaleFactor ?s0 # map fst moves)"
      "pathDrawerScaleCalls st1 = pathDrawerScaleCalls ?s0"
    by blast
  from s1(2,3) have sx: "fst (getScaleFactor2d (ctx st1))
      = fst (getScaleFactor2d (ctx st)) * last (1 # map fst moves)"
    unfolding l0 c0 by simp
  have g: "pinchGesture center moves st = Inr (endPinch st1)"
    by (simp add: pinchGesture_def s1(1))
  have e1: "pathDrawerScaleCalls (endPinch st1) =
      pathDrawerScaleCalls st1 @ [fst (getScaleFactor2d (ctx st1))]"
    and e2: "ctx (endPinch st1) = ctx st1"
    by (simp_all add: endPinch_def endTranslate_def pathDrawer_scale_def)
  show ?thesis
    using s1(1) s1(4) g e1 e2 sx p0 by simp
qed

text \<open>
  C8, as the code has it. A pinch gesture (pinch-start, pinch-moves with positive gesture
  scales, pinch-end) makes exactly one call of the path layer's rescale, at pinch-end and
  none during the moves, and passes the final global scale factor: the global scale factor
  before the gesture times the final gesture scale. For a final gesture scale 2.0 this is
  2.0 when the gesture starts at the global scale factor 1.
\<close>

theorem pinch_rescales_once:
  assumes "\<forall>evt \<in> set moves. 0 < fst evt"
  shows "\<exists>st1 st2. scalePinches moves (startPinch center st) = Inr st1
     \<and> pathDrawerScaleCalls st1 = pathDrawerScaleCalls st
     \<and> pinchGesture center moves st = Inr st2
     \<and> pathDrawerScaleCalls st2 =
         pathDrawerScaleCalls st @ [fst (getScaleFactor2d (ctx st)) * last (1 # map fst moves)]
     \<and> fst (getScaleFactor2d (ctx st2)) = fst (getScaleFactor2d (ctx st)) * last (1 # map fst moves)"
  using assms by (rule pinchGesture_calls)

theorem pinch_rescales_once_witness:
  "(0::real) < fst (3 / 2, (512::real, 512::real)) \<and> (0::real) < fst (2, (512::real, 512::real))
   \<and> fst (getScaleFactor2d (ctx exampleWidget)) = 1
   \<and> (\<exists>st1 st2. scalePinches [(3 / 2, (512, 512)), (2, (512, 512))]
                     (startPinch (512, 512) exampleWidget) = Inr st1
         \<and> pathDrawerScaleCalls st1 = []
         \<and> pinchGesture (512, 512) [(3 / 2, (512, 512)), (2, (512, 512))] exampleWidget = Inr st2
         \<and> pathDrawerScaleCalls st2 = [2])"
proof -
  have h: "\<forall>evt \<in> set [(3 / 2, (512, 512)), (2 :: real, (512 :: real, 512 :: real))]. 0 < fst evt"
    by simp
  have a: "fst (getScaleFactor2d (ctx exampleWidget)) = 1"
    by (simp add: exampleWidget_def identityMatrix_def getScaleFactor2d_def)
  have p: "pathDrawerScaleCalls exampleWidget = []"
    by (simp add: exampleWidget_def)
  have l: "last (1 # map fst [(3 / 2, (512, 512)), (2 :: real, (512 :: real, 512 :: real))]) = 2"
    by simp
  from pinch_rescales_once [OF h, of "(512, 512)" exampleWidget]
  obtain st1 st2 where
    "scalePinches [(3 / 2, (512, 512)), (2, (512, 512))] (startPinch (512, 512) exampleWidget) = Inr st1"
    "pathDrawerScaleCalls st1 = []"
    "pinchGesture (512, 512) [(3 / 2, (512, 512)), (2, (512, 512))] exampleWidget = Inr st2"
    "pathDrawerScaleCalls st2 = [2]"
    unfolding a p l by auto
  then have "\<exists>st1 st2. scalePinches [(3 / 2, (512, 512)), (2, (512, 512))]
                     (startPinch (512, 512) exampleWidget) = Inr st1
         \<and> pathDrawerScaleCalls st1 = []
         \<and> pinchGesture (512, 512) [(3 / 2, (512, 512)), (2, (512, 512))] exampleWidget = Inr st2
         \<and> pathDrawerScaleCalls st2 = [2]"
    by blast
  with a show ?thesis by simp
qed

text \<open>
  C8 as stated fails: after \<open>_initCanvas\<close> with the initial scale factor 1/2, a pinch
  with gesture scale 2.0 about (512, 512) ends with one rescale call that passes 1, not 2.
\<close>

theorem pinch_rescale_factor_counterexample:
  "fst (getScaleFactor2d (ctx halfScaleWidget)) = 1 / 2
   \<and> map_sum id pathDrawerScaleCalls
        (pinchGesture (512, 512) [(2, (512, 512))] halfScaleWidget) = Inr [1 / 2, 1]
   \<and> map_sum id pathDrawerScaleCalls
        (pinchGesture (512, 512) [(2, (512, 512))] halfScaleWidget) \<noteq> Inr [1 / 2, 2]"
proof -
  have h: "\<forall>evt \<in> set [(2 :: real, (512 :: real, 512 :: real))]. 0 < fst evt"
    by simp
  have i: "fst (getScaleFactor2d identityMatrix) = 1"
    by (simp add: identityMatrix_def getScaleFactor2d_def)
  have a: "fst (getScaleFactor2d (ctx halfScaleWidget)) = 1 / 2"
    by (simp add: halfScaleWidget_def initCanvas_def divideNumbers_def Let_def i)
  have p: "pathDrawerScaleCalls halfScaleWidget = [1 / 2]"
    by (simp add: halfScaleWidget_def initCanvas_def divideNumbers_def Let_def)
  have l: "last (1 # map fst [(2 :: real, (512 :: real, 512 :: real))]) = 2"
    by simp
  from pinchGesture_calls [OF h, of "(512, 512)" halfScaleWidget]
  obtain st2 where "pinchGesture (512, 512) [(2, (512, 512))] halfScaleWidget = Inr st2"
    and "pathDrawerScaleCalls st2 = [1 / 2, 1]"
    unfolding a p l by auto
  then have "map_sum id pathDrawerScaleCalls
        (pinchGesture (512, 512) [(2, (512, 512))] halfScaleWidget) = Inr [1 / 2, 1]"
    by simp
  with a show ?thesis by simp
qed

section \<open>Properties of the raw-map renderer\<close>

subsection \<open>Rounding to doubles\<close>

lemma roundHalfEven_error: "\<bar>real_of_int (roundHalfEven y) - y\<bar> \<le> 1 / 2"
proof -
  have "real_of_int \<lfloor>y\<rfloor> \<le> y" "y < real_of_int \<lfloor>y\<rfloor> + 1" by linarith+
  then show ?thesis
    by (auto simp: roundHalfEven_def Let_def)
qed

lemma roundDouble_error: "\<bar>roundDouble x - x\<bar> \<le> \<bar>x\<bar> / 2 ^ 53"
proof (cases "x = 0")
  case True
  then show ?thesis by (simp add: roundDouble_def)
next
  case False
  define e where "e = \<lfloor>log 2 \<bar>x\<bar>\<rfloor>"
  define q where "q = 2 powr (real_of_int e - 52)"
  have qpos: "0 < q" by (simp add: q_def)
  have fl: "roundDouble x = real_of_int (roundHalfEven (x / q)) * q"
    using False by (simp add: roundDouble_def Let_def q_def e_def)
  have "real_of_int e \<le> log 2 \<bar>x\<bar>" by (simp add: e_def)
  then have "2 powr real_of_int e \<le> 2 powr log 2 \<bar>x\<bar>" by simp
  also have "\<dots> = \<bar>x\<bar>" using False by simp
  finally have le: "2 powr real_of_int e \<le> \<bar>x\<bar>" .
  have q2: "q = 2 powr real_of_int e / 2 ^ 52"
    by (simp add: q_def powr_diff)
  have "roundDouble x - x = (real_of_int (roundHalfEven (x / q)) - x / q) * q"
    using qpos by (simp add: fl algebra_simps)
  then have "\<bar>roundDouble x - x\<bar> = \<bar>real_of_int (roundHalfEven (x / q)) - x / q\<bar> * q"
    using qpos by (simp add: abs_mult)
  also have "\<dots> \<le> 1 / 2 * q"
    using roundHalfEven_error [of "x / q"] qpos by (intro mult_right_mono) simp_all
  also have "\<dots> = 2 powr real_of_int e / 2 ^ 53"
    by (simp add: q2)
  also have "\<dots> \<le> \<bar>x\<bar> / 2 ^ 53"
    using le by (simp add: divide_right_mono)
  finally show ?thesis .
qed

lemma floor_log2_between:
  fixes x :: real
  assumes lo: "2 ^ n \<le> \<bar>x\<bar>" and hi: "\<bar>x\<bar> < 2 * 2 ^ n"
  shows "\<lfloor>log 2 \<bar>x\<bar>\<rfloor> = int n"
proof -
  have "(0::real) < 2 ^ n" by simp
  with lo have pos: "0 < \<bar>x\<bar>" by linarith
  have "2 powr real n \<le> \<bar>x\<bar>" using lo by (simp add: powr_realpow)
  then have a: "real n \<le> log 2 \<bar>x\<bar>" using pos by (simp add: le_log_iff)
  have "\<bar>x\<bar> < 2 powr (real n + 1)" using hi by (simp add: powr_add powr_realpow)
  then have b: "log 2 \<bar>x\<bar> < real n + 1" using pos by (simp add: log_less_iff)
  from a b show ?thesis
    by (intro floor_unique) simp_all
qed

lemma ulp_power:
  assumes n: "n \<le> 52"
  shows "2 powr (real n - 52) = 1 / 2 ^ (52 - n)"
proof -
  from n have "real n - 52 = - real (52 - n)" by simp
  then have "2 powr (real n - 52) = 2 powr (- real (52 - n))" by (rule arg_cong)
  also have "\<dots> = 1 / 2 ^ (52 - n)"
    by (simp only: powr_minus powr_realpow inverse_eq_divide zero_less_numeral)
  finally show ?thesis .
qed

lemma roundDouble_value:
  assumes lo: "2 ^ n \<le> \<bar>x\<bar>" and hi: "\<bar>x\<bar> < 2 * 2 ^ n" and n: "n \<le> 52"
    and r: "roundHalfEven (x * 2 ^ (52 - n)) = k"
  shows "roundDouble x = real_of_int k / 2 ^ (52 - n)"
proof -
  have "(0::real) < 2 ^ n" by simp
  with lo have "0 < \<bar>x\<bar>" by linarith
  then have nz: "x \<noteq> 0" by simp
  have "roundDouble x =
      real_of_int (roundHalfEven (x / 2 powr (real n - 52))) * 2 powr (real n - 52)"
    using nz unfolding roundDouble_def Let_def floor_log2_between [OF lo hi] by simp
  then show ?thesis
    unfolding ulp_power [OF n] using r by simp
qed

lemma roundDouble_small:
  "roundDouble 0 = 0" "roundDouble 1 = 1" "roundDouble 2 = 2" "roundDouble 512 = 512"
proof -
  show "roundDouble 0 = 0" by (simp add: roundDouble_def)
  have "roundDouble 1 = real_of_int 4503599627370496 / 2 ^ (52 - 0)"
    by (rule roundDouble_value) (simp_all add: roundHalfEven_def Let_def)
  then show "roundDouble 1 = 1" by simp
  have "roundDouble 2 = real_of_int 4503599627370496 / 2 ^ (52 - 1)"
    by (rule roundDouble_value) (simp_all add: roundHalfEven_def Let_def)
  then show "roundDouble 2 = 2" by simp
  have "roundDouble 512 = real_of_int 4503599627370496 / 2 ^ (52 - 9)"
    by (rule roundDouble_value) (simp_all add: roundHalfEven_def Let_def)
  then show "roundDouble 512 = 512" by simp
qed

subsection \<open>Decoding the binary payloads\<close>

lemma uint32_of_bytes_be32:
  "uint32_of_bytes (ucast (drop_bit 24 w)) (ucast (drop_bit 16 w)) (ucast (drop_bit 8 w)) (ucast w) = w"
proof (rule bit_word_eqI)
  fix n
  assume "n < LENGTH(32)"
  then have n: "n < 32" by simp
  consider (a) "n < 8" | (b) "8 \<le> n" "n < 16" | (c) "16 \<le> n" "n < 24" | (d) "24 \<le> n" "n < 32"
    using n by linarith
  then show "bit (uint32_of_bytes (ucast (drop_bit 24 w)) (ucast (drop_bit 16 w))
               (ucast (drop_bit 8 w)) (ucast w)) n = bit w n"
  proof cases
    case a
    then show ?thesis by (auto simp: uint32_of_bytes_def bit_simps)
  next
    case b
    then show ?thesis by (auto simp: uint32_of_bytes_def bit_simps)
  next
    case c
    then show ?thesis by (auto simp: uint32_of_bytes_def bit_simps)
  next
    case d
    then show ?thesis by (auto simp: uint32_of_bytes_def bit_simps)
  qed
qed

lemma length_be32 [simp]: "length (be32 w) = 4"
  by (simp add: be32_def)

lemma getUint32_at:
  "getUint32 (pre @ be32 w @ rest) (length pre) = Inr w"
  by (simp add: getUint32_def be32_def nth_append uint32_of_bytes_be32)

lemma getUint8_at:
  "getUint8 (pre @ b # rest) (length pre) = Inr b"
  by (simp add: getUint8_def nth_append)

lemma length_encodePixel [simp]: "length (encodePixel rec) = 7"
  by (cases rec) (simp add: encodePixel_def)

lemma length_encodePoint [simp]: "length (encodePoint rec) = 8"
  by (cases rec) (simp add: encodePoint_def)

lemma updateMapData_loop_step:
  "updateMapData_loop (pre @ encodePixel (pos, r, g, b) @ rest) (length pre) imageData
     = updateMapData_loop (pre @ encodePixel (pos, r, g, b) @ rest)
         (length pre + 7) (paintPixel (unat pos) r imageData)"
proof -
  let ?view = "pre @ encodePixel (pos, r, g, b) @ rest"
  have v: "?view = pre @ be32 pos @ ([r, g, b] @ rest)"
    by (simp add: encodePixel_def)
  have a: "getUint32 ?view (length pre) = Inr pos"
    unfolding v by (rule getUint32_at)
  have r: "getUint8 ?view (length pre + 4) = Inr r"
    using getUint8_at [of "pre @ be32 pos" r "[g, b] @ rest"] by (simp add: encodePixel_def)
  have g: "getUint8 ?view (length pre + 5) = Inr g"
    using getUint8_at [of "pre @ be32 pos @ [r]" g "[b] @ rest"] by (simp add: encodePixel_def)
  have b: "getUint8 ?view (length pre + 6) = Inr b"
    using getUint8_at [of "pre @ be32 pos @ [r, g]" b rest] by (simp add: encodePixel_def)
  have lt: "length pre < length ?view"
    by simp
  show ?thesis
    by (subst updateMapData_loop.simps) (simp add: a r g b)
qed

lemma updateMapData_loop_end:
  "updateMapData_loop view (length view) imageData = Inr imageData"
  by (subst updateMapData_loop.simps) simp

lemma updateMapData_loop_records:
  "updateMapData_loop (pre @ concat (map encodePixel recs)) (length pre) imageData
     = Inr (paintPixels recs imageData)"
proof (induction recs arbitrary: pre imageData)
  case Nil
  then show ?case by (simp add: updateMapData_loop_end paintPixels_def)
next
  case (Cons rec recs)
  obtain pos r g b where rec: "rec = (pos, r, g, b)" by (cases rec) auto
  have "updateMapData_loop (pre @ concat (map encodePixel (rec # recs))) (length pre) imageData
      = updateMapData_loop (pre @ encodePixel rec @ concat (map encodePixel recs))
          (length pre + 7) (paintPixel (unat pos) r imageData)"
    using updateMapData_loop_step [of pre pos r g b "concat (map encodePixel recs)" imageData]
    by (simp add: rec)
  also have "\<dots> = Inr (paintPixels recs (paintPixel (unat pos) r imageData))"
    using Cons.IH [of "pre @ encodePixel rec" "paintPixel (unat pos) r imageData"] by simp
  also have "\<dots> = Inr (paintPixels (rec # recs) imageData)"
    by (simp add: paintPixels_def rec)
  finally show ?case .
qed

lemma drawPath_loop_step:
  "drawPath_loop m (pre @ encodePoint (px, py) @ rest) (length pre) first cmds
     = drawPath_loop m (pre @ encodePoint (px, py) @ rest) (length pre + 8)
         False (cmds @ pathCommands m first [(px, py)])"
proof -
  let ?view = "pre @ encodePoint (px, py) @ rest"
  have a: "getUint32 ?view (length pre) = Inr px"
    using getUint32_at [of pre px "be32 py @ rest"] by (simp add: encodePoint_def)
  have b: "getUint32 ?view (length pre + 4) = Inr py"
    using getUint32_at [of "pre @ be32 px" py rest] by (simp add: encodePoint_def)
  show ?thesis
    by (subst drawPath_loop.simps) (simp add: a b pathPoint_def Let_def)
qed

lemma drawPath_loop_end:
  "drawPath_loop m view (length view) first cmds = Inr cmds"
  by (subst drawPath_loop.simps) simp

lemma drawPath_loop_records:
  "drawPath_loop m (pre @ concat (map encodePoint recs)) (length pre) first cmds
     = Inr (cmds @ pathCommands m first recs)"
proof (induction recs arbitrary: pre first cmds)
  case Nil
  then show ?case by (simp add: drawPath_loop_end)
next
  case (Cons rec recs)
  obtain px py where rec: "rec = (px, py)" by (cases rec) auto
  have "drawPath_loop m (pre @ concat (map encodePoint (rec # recs))) (length pre) first cmds
      = drawPath_loop m (pre @ encodePoint rec @ concat (map encodePoint recs))
          (length pre + 8) False (cmds @ pathCommands m first [rec])"
    using drawPath_loop_step [of m pre px py "concat (map encodePoint recs)" first cmds]
    by (simp add: rec)
  also have "\<dots> = Inr ((cmds @ pathCommands m first [rec]) @ pathCommands m False recs)"
    using Cons.IH [of "pre @ encodePoint rec" False "cmds @ pathCommands m first [rec]"] by simp
  also have "\<dots> = Inr (cmds @ pathCommands m first (rec # recs))"
    by simp
  finally show ?case .
qed

text \<open>
  C6, as the code has it. The decoder of the image payload consumes records of 7 bytes: the
  pixel index in 4 bytes, big-endian, then \<open>r\<close>, \<open>g\<close> and \<open>b\<close> in one byte each; the
  decoder of the path payload consumes records of 8 bytes: \<open>x\<close> and \<open>y\<close> in 4 bytes each,
  big-endian. There is no padding: a payload of such records is decoded record by record,
  into the pixel writes and the path commands of the records.
\<close>

theorem payload_record_layouts:
  "updateMapData_loop (concat (map encodePixel recs)) 0 imageData = Inr (paintPixels recs imageData)
   \<and> drawPath_loop m (concat (map encodePoint pts)) 0 True [] = Inr (pathCommands m True pts)"
  using updateMapData_loop_records [of "[]" recs imageData]
        drawPath_loop_records [of m "[]" pts True "[]"]
  by simp

theorem payload_record_layouts_witness:
  "concat (map encodePixel [(1, 0, 9, 9), (0, 5, 9, 9)]) = [0, 0, 0, 1, 0, 9, 9, 0, 0, 0, 0, 5, 9, 9]
   \<and> updateMapData_loop [0, 0, 0, 1, 0, 9, 9, 0, 0, 0, 0, 5, 9, 9] 0 [0, 0, 0, 0, 0, 0]
       = Inr [0, 118, 255, 255, 255, 0]
   \<and> concat (map encodePoint [(4, 8), (2048, 0)])
       = [0, 0, 0, 4, 0, 0, 0, 8, 0, 0, 8, 0, 0, 0, 0, 0]
   \<and> drawPath_loop (exampleMap \<lparr> viewportPosition := (0, 0) \<rparr>)
        [0, 0, 0, 4, 0, 0, 0, 8, 0, 0, 8, 0, 0, 0, 0, 0] 0 True []
       = Inr [MoveTo 1 2, LineTo 512 0]"
proof -
  have e1: "concat (map encodePixel [(1, 0, 9, 9), (0, 5, 9, 9)])
      = [0, 0, 0, 1, 0, 9, 9, 0, 0, 0, 0, 5, 9, 9]"
    by (simp add: encodePixel_def be32_def)
  have e2: "concat (map encodePoint [(4, 8), (2048, 0)])
      = [0, 0, 0, 4, 0, 0, 0, 8, 0, 0, 8, 0, 0, 0, 0, 0]"
    by (simp add: encodePoint_def be32_def)
  have p: "paintPixels [(1, 0, 9, 9), (0, 5, 9, 9)] [0, 0, 0, 0, 0, 0] = [0, 118, 255, 255, 255, 0]"
    by (simp add: paintPixels_def paintPixel_def)
  have c: "pathCommands (exampleMap \<lparr> viewportPosition := (0, 0) \<rparr>) True [(4, 8), (2048, 0)]
      = [MoveTo 1 2, LineTo 512 0]"
    by (simp add: pathPoint_def transformMapToViewport_def exampleMap_def roundDouble_small)
  from payload_record_layouts [of "[(1, 0, 9, 9), (0, 5, 9, 9)]" "[0, 0, 0, 0, 0, 0]"
         "exampleMap \<lparr> viewportPosition := (0, 0) \<rparr>" "[(4, 8), (2048, 0)]"]
  show ?thesis unfolding e1 e2 p c using e1 e2 by simp
qed

text \<open>
  C6 as stated fails: on one image record, and on one path record, laid out with three
  bytes of padding after each 4-byte field, the decoders read the padding as data and then
  read past the end of the buffer.
\<close>

theorem padded_layout_counterexample:
  "encodePixel_padded (1, 7, 2, 3) = [0, 0, 0, 1, 0, 0, 0, 7, 2, 3]
   \<and> updateMapData_loop (encodePixel_padded (1, 7, 2, 3)) 0 [0, 0, 0, 0, 0, 0] = Inl RangeError
   \<and> encodePoint_padded (4, 8) = [0, 0, 0, 4, 0, 0, 0, 0, 0, 0, 8, 0, 0, 0]
   \<and> drawPath_loop exampleMap (encodePoint_padded (4, 8)) 0 True [] = Inl RangeError"
proof -
  have e1: "encodePixel_padded (1, 7, 2, 3) = [0, 0, 0, 1, 0, 0, 0, 7, 2, 3]"
    by (simp add: encodePixel_padded_def be32_def)
  have e2: "encodePoint_padded (4, 8) = [0, 0, 0, 4, 0, 0, 0, 0, 0, 0, 8, 0, 0, 0]"
    by (simp add: encodePoint_padded_def be32_def)
  have a: "updateMapData_loop [0, 0, 0, 1, 0, 0, 0, 7, 2, 3] 0 [0, 0, 0, 0, 0, 0] = Inl RangeError"
    by (simp add: updateMapData_loop.simps getUint32_def getUint8_def)
  have b: "drawPath_loop exampleMap [0, 0, 0, 4, 0, 0, 0, 0, 0, 0, 8, 0, 0, 0] 0 True []
      = Inl RangeError"
    by (simp add: drawPath_loop.simps getUint32_def)
  show ?thesis unfolding e1 e2 using a b by simp
qed

subsection \<open>The viewport transforms\<close>

lemma scaled_error:
  fixes x y s :: real
  assumes s: "0 < s" and e: "\<bar>x - y\<bar> \<le> \<bar>y\<bar> / 2 ^ 53"
  shows "\<bar>x * s - y * s\<bar> \<le> \<bar>y * s\<bar> / 2 ^ 53"
proof -
  have "\<bar>x * s - y * s\<bar> = \<bar>x - y\<bar> * s"
    using s by (simp add: abs_mult flip: left_diff_distrib)
  also have "\<dots> \<le> \<bar>y\<bar> / 2 ^ 53 * s"
    using e s by (intro mult_right_mono) simp_all
  also have "\<dots> = \<bar>y * s\<bar> / 2 ^ 53"
    using s by (simp add: abs_mult)
  finally show ?thesis .
qed

lemma viewport_roundtrip_scalar:
  fixes p v s :: real
  assumes s: "0 < s"
  shows "\<bar>roundDouble (roundDouble (roundDouble (v + roundDouble (p / s)) - v) * s) - p\<bar>
           \<le> (\<bar>p\<bar> + \<bar>v\<bar> * s) / 2 ^ 50"
proof -
  define a where "a = roundDouble (p / s)"
  define b where "b = roundDouble (v + a)"
  define c where "c = roundDouble (b - v)"
  define d where "d = roundDouble (c * s)"
  define A where "A = a * s"
  define B where "B = (b - v) * s"
  define C where "C = c * s"
  define V where "V = \<bar>v\<bar> * s"
  have e1: "\<bar>A - p\<bar> \<le> \<bar>p\<bar> / 2 ^ 53"
    using scaled_error [OF s roundDouble_error [of "p / s"]] s by (simp add: a_def A_def)
  have "\<bar>b * s - (v + a) * s\<bar> \<le> \<bar>(v + a) * s\<bar> / 2 ^ 53"
    unfolding b_def by (rule scaled_error [OF s roundDouble_error])
  moreover have "\<bar>(v + a) * s\<bar> \<le> V + \<bar>A\<bar>"
    using s abs_triangle_ineq [of "v * s" "a * s"] by (simp add: abs_mult distrib_right V_def A_def)
  moreover have "b * s - (v + a) * s = B - A"
    by (simp add: B_def A_def algebra_simps)
  ultimately have e2: "\<bar>B - A\<bar> \<le> (V + \<bar>A\<bar>) / 2 ^ 53"
    by (simp add: divide_right_mono order_trans [OF _ divide_right_mono])
  have e3: "\<bar>C - B\<bar> \<le> \<bar>B\<bar> / 2 ^ 53"
    unfolding c_def C_def B_def by (rule scaled_error [OF s roundDouble_error])
  have e4: "\<bar>d - C\<bar> \<le> \<bar>C\<bar> / 2 ^ 53"
    unfolding d_def C_def by (rule roundDouble_error)
  have v0: "0 \<le> V" using s by (simp add: V_def)
  have hA: "\<bar>A\<bar> \<le> \<bar>p\<bar> + \<bar>A - p\<bar>" by linarith
  have hB: "\<bar>B\<bar> \<le> \<bar>A\<bar> + \<bar>B - A\<bar>" by linarith
  have hC: "\<bar>C\<bar> \<le> \<bar>B\<bar> + \<bar>C - B\<bar>" by linarith
  have hd: "\<bar>d - p\<bar> \<le> \<bar>d - C\<bar> + \<bar>C - B\<bar> + \<bar>B - A\<bar> + \<bar>A - p\<bar>" by linarith
  define P where "P = \<bar>p\<bar>"
  define nA where "nA = \<bar>A\<bar>"
  define nB where "nB = \<bar>B\<bar>"
  define nC where "nC = \<bar>C\<bar>"
  define r1 where "r1 = \<bar>A - p\<bar>"
  define r2 where "r2 = \<bar>B - A\<bar>"
  define r3 where "r3 = \<bar>C - B\<bar>"
  define r4 where "r4 = \<bar>d - C\<bar>"
  define r where "r = \<bar>d - p\<bar>"
  have p0: "0 \<le> P" by (simp add: P_def)
  have "r \<le> (P + V) / 2 ^ 50"
    using e1 e2 e3 e4 v0 hA hB hC hd p0
    unfolding P_def [symmetric] nA_def [symmetric] nB_def [symmetric] nC_def [symmetric]
      r1_def [symmetric] r2_def [symmetric] r3_def [symmetric] r4_def [symmetric] r_def [symmetric]
    by simp
  then have "\<bar>d - p\<bar> \<le> (\<bar>p\<bar> + V) / 2 ^ 50"
    by (simp add: r_def P_def)
  then show ?thesis
    by (simp add: a_def b_def c_def d_def V_def)
qed

lemma unscaled_error:
  fixes x y s :: real
  assumes s: "0 < s" and e: "\<bar>x - y * s\<bar> \<le> \<bar>y * s\<bar> / 2 ^ 53"
  shows "\<bar>x / s - y\<bar> \<le> \<bar>y\<bar> / 2 ^ 53"
proof -
  have "x / s - y = (x - y * s) / s"
    using s by (simp add: diff_divide_distrib)
  then have "\<bar>x / s - y\<bar> = \<bar>x - y * s\<bar> / \<bar>s\<bar>"
    by (simp only: abs_divide)
  also have "\<dots> = \<bar>x - y * s\<bar> / s"
    using s by simp
  also have "\<dots> \<le> \<bar>y * s\<bar> / 2 ^ 53 / s"
    using e s by (intro divide_right_mono) simp_all
  also have "\<dots> = \<bar>y\<bar> / 2 ^ 53"
    using s by (simp add: abs_mult)
  finally show ?thesis .
qed

lemma map_roundtrip_scalar:
  fixes p v s :: real
  assumes s: "0 < s"
  shows "\<bar>roundDouble (v + roundDouble (roundDouble (roundDouble (p - v) * s) / s)) - p\<bar>
           \<le> (\<bar>p\<bar> + \<bar>v\<bar>) / 2 ^ 50"
proof -
  define c where "c = roundDouble (p - v)"
  define d where "d = roundDouble (c * s)"
  define a where "a = roundDouble (d / s)"
  define b where "b = roundDouble (v + a)"
  define D where "D = d / s"
  have e1: "\<bar>c - (p - v)\<bar> \<le> \<bar>p - v\<bar> / 2 ^ 53"
    unfolding c_def by (rule roundDouble_error)
  have e2: "\<bar>D - c\<bar> \<le> \<bar>c\<bar> / 2 ^ 53"
    unfolding D_def d_def by (rule unscaled_error [OF s roundDouble_error])
  have e3: "\<bar>a - D\<bar> \<le> \<bar>D\<bar> / 2 ^ 53"
    unfolding a_def D_def by (rule roundDouble_error)
  have e4: "\<bar>b - (v + a)\<bar> \<le> \<bar>v + a\<bar> / 2 ^ 53"
    unfolding b_def by (rule roundDouble_error)
  have h0: "\<bar>p - v\<bar> \<le> \<bar>p\<bar> + \<bar>v\<bar>" by linarith
  have hc: "\<bar>c\<bar> \<le> \<bar>p - v\<bar> + \<bar>c - (p - v)\<bar>" by linarith
  have hD: "\<bar>D\<bar> \<le> \<bar>c\<bar> + \<bar>D - c\<bar>" by linarith
  have ha: "\<bar>a - (p - v)\<bar> \<le> \<bar>a - D\<bar> + \<bar>D - c\<bar> + \<bar>c - (p - v)\<bar>" by linarith
  have hva: "\<bar>v + a\<bar> \<le> \<bar>p\<bar> + \<bar>a - (p - v)\<bar>" by linarith
  have hb: "\<bar>b - p\<bar> \<le> \<bar>b - (v + a)\<bar> + \<bar>a - (p - v)\<bar>" by linarith
  define P where "P = \<bar>p\<bar>"
  define V where "V = \<bar>v\<bar>"
  define nq where "nq = \<bar>p - v\<bar>"
  define nc where "nc = \<bar>c\<bar>"
  define nD where "nD = \<bar>D\<bar>"
  define nva where "nva = \<bar>v + a\<bar>"
  define r1 where "r1 = \<bar>c - (p - v)\<bar>"
  define r2 where "r2 = \<bar>D - c\<bar>"
  define r3 where "r3 = \<bar>a - D\<bar>"
  define r4 where "r4 = \<bar>b - (v + a)\<bar>"
  define ra where "ra = \<bar>a - (p - v)\<bar>"
  define r where "r = \<bar>b - p\<bar>"
  have p0: "0 \<le> P" "0 \<le> V" by (simp_all add: P_def V_def)
  have "r \<le> (P + V) / 2 ^ 50"
    using e1 e2 e3 e4 h0 hc hD ha hva hb p0
    unfolding P_def [symmetric] V_def [symmetric] nq_def [symmetric] nc_def [symmetric]
      nD_def [symmetric] nva_def [symmetric] r1_def [symmetric] r2_def [symmetric]
      r3_def [symmetric] r4_def [symmetric] ra_def [symmetric] r_def [symmetric]
    by simp
  then show ?thesis
    by (simp add: r_def P_def V_def a_def b_def c_def d_def)
qed

lemma zoomedMap_fields:
  "scale zoomedMap = 5404319552844595 / 4503599627370496"
  "viewportPosition zoomedMap = (512, 512)"
  by (simp_all add: zoomedMap_def exampleMap_def)

lemma zoomed_y1: "roundDouble (40 / scale zoomedMap) = 4691249611844267 / 140737488355328"
proof -
  have "roundDouble (40 / scale zoomedMap) = real_of_int 4691249611844267 / 2 ^ (52 - 5)"
    by (rule roundDouble_value) (simp_all add: roundHalfEven_def Let_def zoomedMap_fields)
  then show ?thesis by simp
qed

lemma zoomed_y2: "roundDouble (512 + 4691249611844267 / 140737488355328) = 4796802728110763 / 8796093022208"
proof -
  have "roundDouble (512 + 4691249611844267 / 140737488355328) = real_of_int 4796802728110763 / 2 ^ (52 - 9)"
    by (rule roundDouble_value) (simp_all add: roundHalfEven_def Let_def zoomedMap_fields)
  then show ?thesis by simp
qed

lemma zoomed_y3: "roundDouble (4796802728110763 / 8796093022208 - 512) = 293203100740267 / 8796093022208"
proof -
  have "roundDouble (4796802728110763 / 8796093022208 - 512) = real_of_int 4691249611844272 / 2 ^ (52 - 5)"
    by (rule roundDouble_value) (simp_all add: roundHalfEven_def Let_def zoomedMap_fields)
  then show ?thesis by simp
qed

lemma zoomed_y4: "roundDouble (293203100740267 / 8796093022208 * scale zoomedMap) = 2814749767106563 / 70368744177664"
proof -
  have "roundDouble (293203100740267 / 8796093022208 * scale zoomedMap) = real_of_int 5629499534213126 / 2 ^ (52 - 5)"
    by (rule roundDouble_value) (simp_all add: roundHalfEven_def Let_def zoomedMap_fields)
  then show ?thesis by simp
qed

lemma zoomed_x1: "roundDouble (30 / scale zoomedMap) = 25"
proof -
  have "roundDouble (30 / scale zoomedMap) = real_of_int 7036874417766400 / 2 ^ (52 - 4)"
    by (rule roundDouble_value) (simp_all add: roundHalfEven_def Let_def zoomedMap_fields)
  then show ?thesis by simp
qed

lemma zoomed_x2: "roundDouble (512 + 25) = 537"
proof -
  have "roundDouble (512 + 25) = real_of_int 4723501952925696 / 2 ^ (52 - 9)"
    by (rule roundDouble_value) (simp_all add: roundHalfEven_def Let_def zoomedMap_fields)
  then show ?thesis by simp
qed

lemma zoomed_x3: "roundDouble (537 - 512) = 25"
proof -
  have "roundDouble (537 - 512) = real_of_int 7036874417766400 / 2 ^ (52 - 4)"
    by (rule roundDouble_value) (simp_all add: roundHalfEven_def Let_def zoomedMap_fields)
  then show ?thesis by simp
qed

lemma zoomed_x4: "roundDouble (25 * scale zoomedMap) = 30"
proof -
  have "roundDouble (25 * scale zoomedMap) = real_of_int 8444249301319680 / 2 ^ (52 - 4)"
    by (rule roundDouble_value) (simp_all add: roundHalfEven_def Let_def zoomedMap_fields)
  then show ?thesis by simp
qed

lemma zoomedMap_to_map:
  "transformViewportToMap zoomedMap (30, 40) = (537, 4796802728110763 / 8796093022208)"
  unfolding transformViewportToMap_def zoomedMap_fields(2) fst_conv snd_conv
    zoomed_y1 zoomed_y2 zoomed_x1 zoomed_x2
  by (rule refl)

lemma zoomedMap_to_viewport:
  "transformMapToViewport zoomedMap (537, 4796802728110763 / 8796093022208) = (30, 2814749767106563 / 70368744177664)"
  unfolding transformMapToViewport_def zoomedMap_fields(2) fst_conv snd_conv
    zoomed_y3 zoomed_y4 zoomed_x3 zoomed_x4
  by (rule refl)

text \<open>
  C10, as the code has it. For every point and every state with a positive scale,
  \<open>transformViewportToMap\<close> and \<open>transformMapToViewport\<close> are inverse to each other up
  to the rounding of double arithmetic: each coordinate of
  \<open>transformMapToViewport(transformViewportToMap(p))\<close> differs from that of \<open>p\<close> by at
  most \<open>(|p| + |viewportPosition| * scale) / 2^50\<close>, and each coordinate of
  \<open>transformViewportToMap(transformMapToViewport(p))\<close> by at most
  \<open>(|p| + |viewportPosition|) / 2^50\<close>.
\<close>

theorem viewport_map_inverse:
  assumes "0 < scale m"
  shows "\<bar>fst (transformMapToViewport m (transformViewportToMap m p)) - fst p\<bar>
           \<le> (\<bar>fst p\<bar> + \<bar>fst (viewportPosition m)\<bar> * scale m) / 2 ^ 50
     \<and> \<bar>snd (transformMapToViewport m (transformViewportToMap m p)) - snd p\<bar>
           \<le> (\<bar>snd p\<bar> + \<bar>snd (viewportPosition m)\<bar> * scale m) / 2 ^ 50
     \<and> \<bar>fst (transformViewportToMap m (transformMapToViewport m p)) - fst p\<bar>
           \<le> (\<bar>fst p\<bar> + \<bar>fst (viewportPosition m)\<bar>) / 2 ^ 50
     \<and> \<bar>snd (transformViewportToMap m (transformMapToViewport m p)) - snd p\<bar>
           \<le> (\<bar>snd p\<bar> + \<bar>snd (viewportPosition m)\<bar>) / 2 ^ 50"
  unfolding transformMapToViewport_def transformViewportToMap_def fst_conv snd_conv
  using viewport_roundtrip_scalar [OF assms, of "fst (viewportPosition m)" "fst p"]
    viewport_roundtrip_scalar [OF assms, of "snd (viewportPosition m)" "snd p"]
    map_roundtrip_scalar [OF assms, of "fst (viewportPosition m)" "fst p"]
    map_roundtrip_scalar [OF assms, of "snd (viewportPosition m)" "snd p"]
  by blast

theorem viewport_map_inverse_witness:
  "0 < scale zoomedMap
   \<and> transformViewportToMap zoomedMap (30, 40) = (537, 4796802728110763 / 8796093022208)
   \<and> transformMapToViewport zoomedMap (transformViewportToMap zoomedMap (30, 40)) = (30, 2814749767106563 / 70368744177664)
   \<and> \<bar>snd (transformMapToViewport zoomedMap (transformViewportToMap zoomedMap (30, 40))) - 40\<bar>
         \<le> (40 + 512 * scale zoomedMap) / 2 ^ 50
   \<and> \<bar>snd (transformViewportToMap zoomedMap (transformMapToViewport zoomedMap (30, 40))) - 40\<bar>
         \<le> (40 + 512) / 2 ^ 50"
proof -
  have h: "0 < scale zoomedMap"
    by (simp add: zoomedMap_fields)
  have v: "snd (viewportPosition zoomedMap) = 512"
    by (simp add: zoomedMap_fields)
  have r: "transformMapToViewport zoomedMap (transformViewportToMap zoomedMap (30, 40)) = (30, 2814749767106563 / 70368744177664)"
    unfolding zoomedMap_to_map by (rule zoomedMap_to_viewport)
  from viewport_map_inverse [OF h, of "(30, 40)"]
  have "\<bar>snd (transformMapToViewport zoomedMap (transformViewportToMap zoomedMap (30, 40))) - 40\<bar>
         \<le> (40 + 512 * scale zoomedMap) / 2 ^ 50"
    and "\<bar>snd (transformViewportToMap zoomedMap (transformMapToViewport zoomedMap (30, 40))) - 40\<bar>
         \<le> (40 + 512) / 2 ^ 50"
    unfolding v snd_conv by simp_all
  with h zoomedMap_to_map r show ?thesis by blast
qed

text \<open>
  C10 as stated fails: at the scale after one zoom-in and the viewport position
  (512, 512), the point (30, 40) comes back as (30, 40 + 3 / 2^46), which JavaScript prints
  as 40.00000000000004.
\<close>

theorem viewport_map_inverse_counterexample:
  "0 < scale zoomedMap
   \<and> transformMapToViewport zoomedMap (transformViewportToMap zoomedMap (30, 40)) = (30, 2814749767106563 / 70368744177664)
   \<and> transformMapToViewport zoomedMap (transformViewportToMap zoomedMap (30, 40)) \<noteq> (30, 40)"
proof -
  have h: "0 < scale zoomedMap"
    by (simp add: zoomedMap_fields)
  have r: "transformMapToViewport zoomedMap (transformViewportToMap zoomedMap (30, 40)) = (30, 2814749767106563 / 70368744177664)"
    unfolding zoomedMap_to_map by (rule zoomedMap_to_viewport)
  have "(30, 2814749767106563 / 70368744177664) \<noteq> (30 :: real, 40 :: real)"
    by simp
  with h r show ?thesis by simp
qed

section \<open>Properties of the live updates\<close>

text \<open>
  C9. A message whose payload fails to parse as JSON is caught and dropped: the handler
  returns, and the image, path, robot and charger are what they were; only the heartbeat
  is set anew. A non-empty message that parses to a frame updates the map to the frame's
  image, path and robot. An empty message does nothing but set the heartbeat anew.
\<close>

theorem onmessage_cases:
  "(evtData \<noteq> [] \<and> JSON_parse evtData = Inl e \<longrightarrow>
      onmessage JSON_parse evtData st = st \<lparr> heartbeatResets := Suc (heartbeatResets st) \<rparr>
      \<and> drawnImage (onmessage JSON_parse evtData st) = drawnImage st
      \<and> drawnPath (onmessage JSON_parse evtData st) = drawnPath st
      \<and> drawnRobot (onmessage JSON_parse evtData st) = drawnRobot st
      \<and> drawnCharger (onmessage JSON_parse evtData st) = drawnCharger st)
   \<and> (evtData \<noteq> [] \<and> JSON_parse evtData = Inr (JsonValue frame) \<longrightarrow>
      onmessage JSON_parse evtData st =
        st \<lparr> drawnImage := image frame, drawnPath := path frame, drawnRobot := robot frame,
             drawnCharger := None, heartbeatResets := Suc (heartbeatResets st) \<rparr>)
   \<and> onmessage JSON_parse [] st = st \<lparr> heartbeatResets := Suc (heartbeatResets st) \<rparr>"
  by (simp add: onmessage_def updateMap_def mapDrawer_draw_def pathDrawer_setPath_def Let_def)

theorem onmessage_cases_witness:
  "''{oops'' \<noteq> [] \<and> exampleParse ''{oops'' = Inl SyntaxError
   \<and> onmessage exampleParse ''{oops'' exampleLive = exampleLive \<lparr> heartbeatResets := 1 \<rparr>
   \<and> ''{frame}'' \<noteq> [] \<and> exampleParse ''{frame}'' = Inr (JsonValue \<lparr> image = 7, path = [1, 2], robot = 3 \<rparr>)
   \<and> onmessage exampleParse ''{frame}'' exampleLive =
       \<lparr> drawnImage = 7, drawnPath = [1, 2], drawnRobot = 3, drawnCharger = None,
         heartbeatResets = 1 \<rparr>"
proof -
  have p1: "exampleParse ''{oops'' = Inl SyntaxError"
    by (simp add: exampleParse_def)
  have p2: "exampleParse ''{frame}'' = Inr (JsonValue \<lparr> image = 7, path = [1, 2], robot = 3 \<rparr>)"
    by (simp add: exampleParse_def)
  have n1: "''{oops'' \<noteq> []" and n2: "''{frame}'' \<noteq> []"
    by simp_all
  from onmessage_cases [of "''{oops''" exampleParse SyntaxError exampleLive] n1 p1
  have a: "onmessage exampleParse ''{oops'' exampleLive = exampleLive \<lparr> heartbeatResets := 1 \<rparr>"
    by (simp add: exampleLive_def)
  from onmessage_cases [of "''{frame}''" exampleParse _ exampleLive
         "\<lparr> image = 7, path = [1, 2], robot = 3 \<rparr>"] n2 p2
  have b: "onmessage exampleParse ''{frame}'' exampleLive =
       \<lparr> drawnImage = 7, drawnPath = [1, 2], drawnRobot = 3, drawnCharger = None,
         heartbeatResets = 1 \<rparr>"
    by (simp add: exampleLive_def)
  from n1 p1 a n2 p2 b show ?thesis by blast
qed

end
